theory Spec2Isabelle
  imports Main "HOL-Library.Word" "HOL-Library.Sublist"
begin

section \<open>JavaScript strings\<close>

text \<open>
  A JavaScript string is a sequence of UTF-16 code units. File contents are the strings
  that \<^verbatim>\<open>fs.readFileSync(path, 'utf-8')\<close> returns and \<^verbatim>\<open>fs.writeFileSync\<close> receives.
  \<open>js\<close> embeds an ASCII literal of the source.
\<close>

type_synonym u16 = "16 word"
type_synonym jsstring = "u16 list"

definition js :: "string \<Rightarrow> jsstring" where
  "js s = map of_char s"

text \<open>ECMAScript \<open>LineTerminator\<close>: LF, CR, U+2028, U+2029.\<close>

definition isLineTerminator :: "u16 \<Rightarrow> bool" where
  "isLineTerminator c = (c = 0x0A \<or> c = 0x0D \<or> c = 0x2028 \<or> c = 0x2029)"

text \<open>
  The code units that \<^verbatim>\<open>String.prototype.trimEnd\<close> strips: ECMAScript \<open>WhiteSpace\<close>
  (TAB, VT, FF, SP, NBSP, BOM and the space separators) and \<open>LineTerminator\<close>.
\<close>

definition isWhiteSpace :: "u16 \<Rightarrow> bool" where
  "isWhiteSpace c =
     (c = 0x09 \<or> c = 0x0B \<or> c = 0x0C \<or> c = 0x20 \<or> c = 0xA0 \<or> c = 0x1680 \<or>
      (0x2000 \<le> c \<and> c \<le> 0x200A) \<or> c = 0x202F \<or> c = 0x205F \<or> c = 0x3000 \<or>
      c = 0xFEFF \<or> isLineTerminator c)"

definition trimEnd :: "jsstring \<Rightarrow> jsstring" where
  "trimEnd s = rev (dropWhile isWhiteSpace (rev s))"

text \<open>\<^verbatim>\<open>s.includes(needle)\<close>: \<open>needle\<close> occurs in \<open>s\<close> as a contiguous run.\<close>

definition String_includes :: "jsstring \<Rightarrow> jsstring \<Rightarrow> bool" where
  "String_includes s needle = sublist needle s"

section \<open>The regular expressions of \<^verbatim>\<open>_patchGitIgnore\<close>\<close>

text \<open>
  The five patterns use only literal characters, an optional character \<^verbatim>\<open>c?\<close> and the
  anchors \<^verbatim>\<open>^\<close> and \<^verbatim>\<open>$\<close> under the \<^verbatim>\<open>m\<close> flag. \<open>rx_match r prev s\<close> matches
  \<open>r\<close> at the front of \<open>s\<close>, where \<open>prev\<close> is the code unit before \<open>s\<close> in the
  subject (none at its start); \<open>rx_search\<close> tries every start position, as a
  non-sticky match does.
\<close>

datatype rx = Bol | Eol | Chr u16 | Opt u16

fun rx_match :: "rx list \<Rightarrow> u16 option \<Rightarrow> jsstring \<Rightarrow> bool" where
  "rx_match [] prev s = True"
| "rx_match (Bol # r) prev s =
     ((case prev of None \<Rightarrow> True | Some p \<Rightarrow> isLineTerminator p) \<and> rx_match r prev s)"
| "rx_match (Eol # r) prev s =
     ((case s of [] \<Rightarrow> True | c # _ \<Rightarrow> isLineTerminator c) \<and> rx_match r prev s)"
| "rx_match (Chr c # r) prev s =
     (case s of [] \<Rightarrow> False | x # xs \<Rightarrow> x = c \<and> rx_match r (Some x) xs)"
| "rx_match (Opt c # r) prev s =
     ((case s of [] \<Rightarrow> False | x # xs \<Rightarrow> x = c \<and> rx_match r (Some x) xs) \<or> rx_match r prev s)"

fun rx_search :: "rx list \<Rightarrow> u16 option \<Rightarrow> jsstring \<Rightarrow> bool" where
  "rx_search r prev [] = rx_match r prev []"
| "rx_search r prev (x # xs) = (rx_match r prev (x # xs) \<or> rx_search r (Some x) xs)"

text \<open>\<^verbatim>\<open>s.match(regex)\<close> read as a truth value: some position matches.\<close>

definition String_match :: "jsstring \<Rightarrow> rx list \<Rightarrow> bool" where
  "String_match s regex = rx_search regex None s"

definition lit :: "string \<Rightarrow> rx list" where
  "lit s = map Chr (js s)"

definition slash :: u16 where
  "slash = 0x2F"

text \<open>
  \<^verbatim>\<open>const valuesToAdd = {
    'node_modules/': /^node_modules\/?/m,
    '/test-results/': /^\/?test-results\/?$/m,
    '/playwright-report/': /^\/playwright-report\/?$/m,
    '/blob-report/': /^\/blob-report\/?$/m,
    '/playwright/.cache/': /^\/playwright\/\.cache\/?$/m
  };\<close>
\<close>

definition valuesToAdd :: "(jsstring \<times> rx list) list" where
  "valuesToAdd =
     [(js ''node_modules/'', Bol # lit ''node_modules'' @ [Opt slash]),
      (js ''/test-results/'', Bol # Opt slash # lit ''test-results'' @ [Opt slash, Eol]),
      (js ''/playwright-report/'', Bol # lit ''/playwright-report'' @ [Opt slash, Eol]),
      (js ''/blob-report/'', Bol # lit ''/blob-report'' @ [Opt slash, Eol]),
      (js ''/playwright/.cache/'', Bol # lit ''/playwright/.cache'' @ [Opt slash, Eol])]"

section \<open>\<^verbatim>\<open>Generator._patchGitIgnore\<close>\<close>

text \<open>
  One round of the \<^verbatim>\<open>forEach\<close> over the entries. The state is the local
  \<^verbatim>\<open>gitIgnore\<close> and the flag \<^verbatim>\<open>thisIsTheFirstLineWeAreAdding\<close>.
\<close>

definition addValue :: "jsstring \<times> bool \<Rightarrow> jsstring \<times> rx list \<Rightarrow> jsstring \<times> bool" where
  "addValue st entry =
     (case st of (gitIgnore, thisIsTheFirstLineWeAreAdding) \<Rightarrow>
      case entry of (v, regex) \<Rightarrow>
        if \<not> String_match gitIgnore regex then
          ((if thisIsTheFirstLineWeAreAdding
            then gitIgnore @ js ''\<newline># Playwright\<newline>''
            else gitIgnore) @ v @ js ''\<newline>'', False)
        else (gitIgnore, thisIsTheFirstLineWeAreAdding))"

text \<open>
  \<open>existing\<close> is the content of \<^verbatim>\<open>.gitignore\<close>, \<open>None\<close> when
  \<^verbatim>\<open>fs.existsSync(gitIgnorePath)\<close> is false; the result is the content written back.
\<close>

definition patchGitIgnore :: "jsstring option \<Rightarrow> jsstring" where
  "patchGitIgnore existing =
     (let gitIgnore = (case existing of None \<Rightarrow> [] | Some c \<Rightarrow> trimEnd c @ js ''\<newline>'')
      in fst (foldl addValue (gitIgnore, True) valuesToAdd))"

section \<open>JSON documents\<close>

datatype json =
    JNull
  | JBool bool
  | JNum jsstring
  | JStr jsstring
  | JArr "json list"
  | JObj "(jsstring \<times> json) list"

subsection \<open>Objects: own properties in \<^verbatim>\<open>OrdinaryOwnPropertyKeys\<close> order\<close>

text \<open>
  The members of an object are kept in the order in which \<^verbatim>\<open>JSON.stringify\<close> and
  \<^verbatim>\<open>Object.entries\<close> visit them: the array indices (canonical numerals below
  \<open>2\<^sup>3\<^sup>2 - 1\<close>) in ascending order first, then the other keys in the order of their
  creation. \<open>objSet\<close> is the assignment \<^verbatim>\<open>obj[k] = v\<close> (and the
  \<^verbatim>\<open>CreateDataProperty\<close> of \<^verbatim>\<open>JSON.parse\<close>): an existing key keeps its place, a new
  index goes behind the indices that are not greater, any other new key goes last.
\<close>

definition isDigit :: "u16 \<Rightarrow> bool" where
  "isDigit c = (0x30 \<le> c \<and> c \<le> 0x39)"

definition digitsValue :: "jsstring \<Rightarrow> int" where
  "digitsValue ds = foldl (\<lambda>a d. 10 * a + (uint d - 48)) 0 ds"

definition arrayIndex :: "jsstring \<Rightarrow> int option" where
  "arrayIndex k =
     (if k \<noteq> [] \<and> list_all isDigit k \<and> (k = js ''0'' \<or> hd k \<noteq> 0x30) \<and>
         length k \<le> 10 \<and> digitsValue k < 4294967295
      then Some (digitsValue k) else None)"

definition indexBefore :: "int \<Rightarrow> jsstring \<times> json \<Rightarrow> bool" where
  "indexBefore i m = (case arrayIndex (fst m) of Some j \<Rightarrow> j \<le> i | None \<Rightarrow> False)"

definition objGet :: "(jsstring \<times> json) list \<Rightarrow> jsstring \<Rightarrow> json option" where
  "objGet obj k = map_of obj k"

definition objSet :: "(jsstring \<times> json) list \<Rightarrow> jsstring \<Rightarrow> json \<Rightarrow> (jsstring \<times> json) list" where
  "objSet obj k v =
     (if k \<in> fst ` set obj then map (\<lambda>m. if fst m = k then (k, v) else m) obj
      else case arrayIndex k of
        Some i \<Rightarrow> takeWhile (indexBefore i) obj @ (k, v) # dropWhile (indexBefore i) obj
      | None \<Rightarrow> obj @ [(k, v)])"

definition objDelete :: "(jsstring \<times> json) list \<Rightarrow> jsstring \<Rightarrow> (jsstring \<times> json) list" where
  "objDelete obj k = filter (\<lambda>m. fst m \<noteq> k) obj"

subsection \<open>\<^verbatim>\<open>JSON.parse\<close>\<close>

definition isJSONWhiteSpace :: "u16 \<Rightarrow> bool" where
  "isJSONWhiteSpace c = (c = 0x09 \<or> c = 0x0A \<or> c = 0x0D \<or> c = 0x20)"

definition skipWS :: "jsstring \<Rightarrow> jsstring" where
  "skipWS s = dropWhile isJSONWhiteSpace s"

definition hexValue :: "u16 \<Rightarrow> nat option" where
  "hexValue c =
     (if 0x30 \<le> c \<and> c \<le> 0x39 then Some (unat c - 0x30)
      else if 0x61 \<le> c \<and> c \<le> 0x66 then Some (unat c - 0x61 + 10)
      else if 0x41 \<le> c \<and> c \<le> 0x46 then Some (unat c - 0x41 + 10)
      else None)"

definition hex4 :: "u16 \<Rightarrow> u16 \<Rightarrow> u16 \<Rightarrow> u16 \<Rightarrow> u16 option" where
  "hex4 a b c d =
     (case (hexValue a, hexValue b, hexValue c, hexValue d) of
        (Some x, Some y, Some z, Some w) \<Rightarrow> Some (of_nat (((x * 16 + y) * 16 + z) * 16 + w))
      | _ \<Rightarrow> None)"

definition unescape :: "u16 \<Rightarrow> u16 option" where
  "unescape e =
     (if e = 0x22 then Some 0x22
      else if e = 0x5C then Some 0x5C
      else if e = 0x2F then Some 0x2F
      else if e = 0x62 then Some 0x08
      else if e = 0x66 then Some 0x0C
      else if e = 0x6E then Some 0x0A
      else if e = 0x72 then Some 0x0D
      else if e = 0x74 then Some 0x09
      else None)"

definition consResult :: "'a \<Rightarrow> ('a list \<times> 'b) option \<Rightarrow> ('a list \<times> 'b) option" where
  "consResult x r = (case r of None \<Rightarrow> None | Some (xs, rest) \<Rightarrow> Some (x # xs, rest))"

text \<open>The characters of a string literal after its opening quote, up to the closing one.\<close>

fun parseChars :: "jsstring \<Rightarrow> (jsstring \<times> jsstring) option" where
  "parseChars [] = None"
| "parseChars (c # cs) =
     (if c = 0x22 then Some ([], cs)
      else if c = 0x5C then
        (case cs of
           [] \<Rightarrow> None
         | e # es \<Rightarrow>
             if e = 0x75 then
               (case es of
                  h1 # h2 # h3 # h4 # r \<Rightarrow>
                    (case hex4 h1 h2 h3 h4 of
                       None \<Rightarrow> None
                     | Some u \<Rightarrow> consResult u (parseChars r))
                | _ \<Rightarrow> None)
             else
               (case unescape e of
                  None \<Rightarrow> None
                | Some u \<Rightarrow> consResult u (parseChars es)))
      else if c < 0x20 then None
      else consResult c (parseChars cs))"

text \<open>
  The JSON number grammar
  \<^verbatim>\<open>-? (0 | [1-9][0-9]*) (\.[0-9]+)? ([eE][+-]?[0-9]+)?\<close>:
  the length of the token at the front of the input.
\<close>

definition optLen :: "(u16 \<Rightarrow> bool) \<Rightarrow> jsstring \<Rightarrow> nat" where
  "optLen p s = (case s of [] \<Rightarrow> 0 | c # _ \<Rightarrow> if p c then 1 else 0)"

definition scanInt :: "jsstring \<Rightarrow> nat option" where
  "scanInt s =
     (case s of
        [] \<Rightarrow> None
      | d # r \<Rightarrow>
          if d = 0x30 then Some 1
          else if isDigit d then Some (1 + length (takeWhile isDigit r))
          else None)"

definition scanFrac :: "jsstring \<Rightarrow> nat option" where
  "scanFrac s =
     (case s of
        [] \<Rightarrow> Some 0
      | d # r \<Rightarrow>
          if d = 0x2E then
            (if takeWhile isDigit r = [] then None else Some (1 + length (takeWhile isDigit r)))
          else Some 0)"

definition scanExp :: "jsstring \<Rightarrow> nat option" where
  "scanExp s =
     (case s of
        [] \<Rightarrow> Some 0
      | e # r \<Rightarrow>
          if e = 0x65 \<or> e = 0x45 then
            (let k = optLen (\<lambda>g. g = 0x2B \<or> g = 0x2D) r
             in if takeWhile isDigit (drop k r) = [] then None
                else Some (1 + k + length (takeWhile isDigit (drop k r))))
          else Some 0)"

definition scanNumber :: "jsstring \<Rightarrow> nat option" where
  "scanNumber s =
     (let k0 = optLen (\<lambda>c. c = 0x2D) s in
      case scanInt (drop k0 s) of
        None \<Rightarrow> None
      | Some k1 \<Rightarrow>
          (case scanFrac (drop (k0 + k1) s) of
             None \<Rightarrow> None
           | Some k2 \<Rightarrow>
               (case scanExp (drop (k0 + k1 + k2) s) of
                  None \<Rightarrow> None
                | Some k3 \<Rightarrow> Some (k0 + k1 + k2 + k3))))"

text \<open>
  A number token is read as the longest run of the characters of numbers and then checked
  against the grammar. No JSON text continues a number with one of these characters (a
  number is followed by white space, a comma, a closing bracket or the end), so this
  accepts the texts of the grammar, with the same values. A number is kept as its token,
  which determines the double that \<^verbatim>\<open>JSON.parse\<close> returns.
\<close>

definition isNumberChar :: "u16 \<Rightarrow> bool" where
  "isNumberChar c =
     (isDigit c \<or> c = 0x2B \<or> c = 0x2D \<or> c = 0x2E \<or> c = 0x45 \<or> c = 0x65)"

text \<open>
  \<open>parseValue\<close> reads one value, \<open>parseElements\<close> the elements of a non-empty array
  after \<^verbatim>\<open>[\<close>, \<open>parseMembers\<close> the members of a non-empty object after \<^verbatim>\<open>{\<close>. The
  first argument bounds the depth of the recursion.
\<close>

fun parseValue :: "nat \<Rightarrow> jsstring \<Rightarrow> (json \<times> jsstring) option"
  and parseElements :: "nat \<Rightarrow> jsstring \<Rightarrow> (json list \<times> jsstring) option"
  and parseMembers :: "nat \<Rightarrow> jsstring \<Rightarrow> ((jsstring \<times> json) list \<times> jsstring) option"
where
  "parseValue 0 s = None"
| "parseValue (Suc n) s =
     (case skipWS s of
        [] \<Rightarrow> None
      | c # cs \<Rightarrow>
          if c = 0x7B then
            (case skipWS cs of
               [] \<Rightarrow> None
             | d # r \<Rightarrow>
                 if d = 0x7D then Some (JObj [], r)
                 else (case parseMembers n cs of
                         None \<Rightarrow> None
                       | Some (ms, r') \<Rightarrow> Some (JObj (foldl (\<lambda>obj m. objSet obj (fst m) (snd m)) [] ms), r')))
          else if c = 0x5B then
            (case skipWS cs of
               [] \<Rightarrow> None
             | d # r \<Rightarrow>
                 if d = 0x5D then Some (JArr [], r)
                 else (case parseElements n cs of
                         None \<Rightarrow> None
                       | Some (vs, r') \<Rightarrow> Some (JArr vs, r')))
          else if c = 0x22 then
            (case parseChars cs of
               None \<Rightarrow> None
             | Some (str, r) \<Rightarrow> Some (JStr str, r))
          else if c = 0x2D \<or> isDigit c then
            (let token = takeWhile isNumberChar (c # cs)
             in if scanNumber token = Some (length token)
                then Some (JNum token, dropWhile isNumberChar (c # cs)) else None)
          else if prefix (js ''true'') (c # cs) then Some (JBool True, drop 4 (c # cs))
          else if prefix (js ''false'') (c # cs) then Some (JBool False, drop 5 (c # cs))
          else if prefix (js ''null'') (c # cs) then Some (JNull, drop 4 (c # cs))
          else None)"
| "parseElements 0 s = None"
| "parseElements (Suc n) s =
     (case parseValue n s of
        None \<Rightarrow> None
      | Some (v, r) \<Rightarrow>
          (case skipWS r of
             [] \<Rightarrow> None
           | c # r' \<Rightarrow>
               if c = 0x2C then consResult v (parseElements n r')
               else if c = 0x5D then Some ([v], r')
               else None))"
| "parseMembers 0 s = None"
| "parseMembers (Suc n) s =
     (case skipWS s of
        [] \<Rightarrow> None
      | q # cs \<Rightarrow>
          if q \<noteq> 0x22 then None
          else
            (case parseChars cs of
               None \<Rightarrow> None
             | Some (k, r) \<Rightarrow>
                 (case skipWS r of
                    [] \<Rightarrow> None
                  | colon # r1 \<Rightarrow>
                      if colon \<noteq> 0x3A then None
                      else
                        (case parseValue n r1 of
                           None \<Rightarrow> None
                         | Some (v, r2) \<Rightarrow>
                             (case skipWS r2 of
                                [] \<Rightarrow> None
                              | c # r3 \<Rightarrow>
                                  if c = 0x2C then consResult (k, v) (parseMembers n r3)
                                  else if c = 0x7D then Some ([(k, v)], r3)
                                  else None)))))"

definition JSON_parse :: "jsstring \<Rightarrow> json option" where
  "JSON_parse text =
     (case parseValue (2 * length text + 1) text of
        None \<Rightarrow> None
      | Some (v, r) \<Rightarrow> if skipWS r = [] then Some v else None)"

subsection \<open>The double of a number token\<close>

text \<open>
  The magnitude of a token of the number grammar is \<open>numMantissa\<close> times ten to the power
  \<open>numExponent\<close>. \<^verbatim>\<open>JSON.parse\<close> returns the double nearest to it, ties to the even
  mantissa. That double is a zero exactly when the magnitude is at most \<^verbatim>\<open>2^-1075\<close>,
  half of the least positive double, and an infinity exactly when the magnitude is at
  least \<^verbatim>\<open>2^1024 - 2^970\<close>, midway between the greatest finite double and
  \<^verbatim>\<open>2^1024\<close>.
\<close>

definition numMantissa :: "jsstring \<Rightarrow> int" where
  "numMantissa t = digitsValue (filter isDigit (takeWhile (\<lambda>c. c \<noteq> 0x65 \<and> c \<noteq> 0x45) t))"

definition numExponent :: "jsstring \<Rightarrow> int" where
  "numExponent t =
     (let fraction = drop 1 (dropWhile (\<lambda>c. c \<noteq> 0x2E) (takeWhile (\<lambda>c. c \<noteq> 0x65 \<and> c \<noteq> 0x45) t));
          exponent = drop 1 (dropWhile (\<lambda>c. c \<noteq> 0x65 \<and> c \<noteq> 0x45) t)
      in (case exponent of
            [] \<Rightarrow> 0
          | s # ds \<Rightarrow>
              if s = 0x2D then - digitsValue ds
              else if s = 0x2B then digitsValue ds
              else digitsValue exponent)
         - int (length fraction))"

definition numIsZero :: "jsstring \<Rightarrow> bool" where
  "numIsZero t =
     (if numMantissa t = 0 then True
      else if 0 \<le> numExponent t then False
      else numMantissa t * 2 ^ 1075 \<le> 10 ^ nat (- numExponent t))"

definition numOverflows :: "jsstring \<Rightarrow> bool" where
  "numOverflows t =
     (if numMantissa t = 0 then False
      else if 0 \<le> numExponent t then 2 ^ 1024 - 2 ^ 970 \<le> numMantissa t * 10 ^ nat (numExponent t)
      else (2 ^ 1024 - 2 ^ 970) * 10 ^ nat (- numExponent t) \<le> numMantissa t)"

subsection \<open>\<^verbatim>\<open>JSON.stringify(value, null, 2)\<close>\<close>

definition hexDigit :: "nat \<Rightarrow> u16" where
  "hexDigit n = (if n < 10 then of_nat (0x30 + n) else of_nat (0x61 + (n - 10)))"

definition unicodeEscape :: "u16 \<Rightarrow> jsstring" where
  "unicodeEscape c =
     [0x5C, 0x75, hexDigit (unat c div 4096), hexDigit (unat c div 256 mod 16),
      hexDigit (unat c div 16 mod 16), hexDigit (unat c mod 16)]"

definition isLeadingSurrogate :: "u16 \<Rightarrow> bool" where
  "isLeadingSurrogate c = (0xD800 \<le> c \<and> c \<le> 0xDBFF)"

definition isTrailingSurrogate :: "u16 \<Rightarrow> bool" where
  "isTrailingSurrogate c = (0xDC00 \<le> c \<and> c \<le> 0xDFFF)"

definition quoteUnit :: "u16 \<Rightarrow> jsstring" where
  "quoteUnit c =
     (if c = 0x08 then [0x5C, 0x62]
      else if c = 0x09 then [0x5C, 0x74]
      else if c = 0x0A then [0x5C, 0x6E]
      else if c = 0x0C then [0x5C, 0x66]
      else if c = 0x0D then [0x5C, 0x72]
      else if c = 0x22 then [0x5C, 0x22]
      else if c = 0x5C then [0x5C, 0x5C]
      else if c < 0x20 then unicodeEscape c
      else [c])"

fun quoteChars :: "jsstring \<Rightarrow> jsstring" where
  "quoteChars [] = []"
| "quoteChars [c] =
     (if isLeadingSurrogate c \<or> isTrailingSurrogate c then unicodeEscape c else quoteUnit c)"
| "quoteChars (c # d # cs) =
     (if isLeadingSurrogate c then
        (if isTrailingSurrogate d then c # d # quoteChars cs
         else unicodeEscape c @ quoteChars (d # cs))
      else if isTrailingSurrogate c then unicodeEscape c @ quoteChars (d # cs)
      else quoteUnit c @ quoteChars (d # cs))"

definition quoteJSONString :: "jsstring \<Rightarrow> jsstring" where
  "quoteJSONString s = 0x22 # quoteChars s @ [0x22]"

definition spaces :: "nat \<Rightarrow> jsstring" where
  "spaces n = replicate n 0x20"

text \<open>
  A number is printed from its double: \<^verbatim>\<open>null\<close> for an infinity, and for a finite
  double what \<^verbatim>\<open>Number.prototype.toString\<close> gives, the shortest decimal that reads back
  as the same double (\<^verbatim>\<open>1.0\<close> is printed as \<^verbatim>\<open>1\<close>). That function of the
  \<^verbatim>\<open>JavaScript\<close> engine is the parameter \<open>num\<close>, from a token to the text printed for
  the double of the token.
\<close>

fun serialize :: "(jsstring \<Rightarrow> jsstring) \<Rightarrow> nat \<Rightarrow> json \<Rightarrow> jsstring"
  and serializeElements :: "(jsstring \<Rightarrow> jsstring) \<Rightarrow> nat \<Rightarrow> json list \<Rightarrow> jsstring"
  and serializeMembers :: "(jsstring \<Rightarrow> jsstring) \<Rightarrow> nat \<Rightarrow> (jsstring \<times> json) list \<Rightarrow> jsstring"
where
  "serialize num n JNull = js ''null''"
| "serialize num n (JBool b) = (if b then js ''true'' else js ''false'')"
| "serialize num n (JNum t) = (if numOverflows t then js ''null'' else num t)"
| "serialize num n (JStr s) = quoteJSONString s"
| "serialize num n (JArr vs) =
     (if vs = [] then js ''[]''
      else js ''[\<newline>'' @ serializeElements num (n + 2) vs @ js ''\<newline>'' @ spaces n @ js '']'')"
| "serialize num n (JObj ms) =
     (if ms = [] then js ''{}''
      else js ''{\<newline>'' @ serializeMembers num (n + 2) ms @ js ''\<newline>'' @ spaces n @ js ''}'')"
| "serializeElements num n [] = []"
| "serializeElements num n (v # vs) =
     spaces n @ serialize num n v @ (if vs = [] then [] else js '',\<newline>'' @ serializeElements num n vs)"
| "serializeMembers num n [] = []"
| "serializeMembers num n (m # ms) =
     spaces n @ quoteJSONString (fst m) @ js '': '' @ serialize num n (snd m) @
       (if ms = [] then [] else js '',\<newline>'' @ serializeMembers num n ms)"

definition JSON_stringify :: "(jsstring \<Rightarrow> jsstring) \<Rightarrow> json \<Rightarrow> jsstring" where
  "JSON_stringify num v = serialize num 0 v"

section \<open>Values at run time\<close>

datatype error = ENOENT | SyntaxError | TypeError | CommandFailed jsstring | UnmatchedMarker

text \<open>\<open>ToBoolean\<close>; \<open>None\<close> is \<^verbatim>\<open>undefined\<close>. A number is falsy when its double is zero.\<close>

fun truthy :: "json option \<Rightarrow> bool" where
  "truthy None = False"
| "truthy (Some JNull) = False"
| "truthy (Some (JBool b)) = b"
| "truthy (Some (JNum t)) = (\<not> numIsZero t)"
| "truthy (Some (JStr s)) = (s \<noteq> [])"
| "truthy (Some (JArr vs)) = True"
| "truthy (Some (JObj ms)) = True"

text \<open>
  \<^verbatim>\<open>v[k]\<close> for a value \<open>v\<close> other than \<^verbatim>\<open>null\<close> and a key \<open>k\<close> that names no
  built-in property of strings, arrays, numbers or booleans and is no array index
  (\<^verbatim>\<open>'scripts'\<close>, \<^verbatim>\<open>'test'\<close>, \<^verbatim>\<open>'dependencies'\<close>, \<^verbatim>\<open>'@types/node'\<close>, ...):
  only an object can have it.
\<close>

definition getMember :: "json \<Rightarrow> jsstring \<Rightarrow> json option" where
  "getMember v k = (case v of JObj obj \<Rightarrow> objGet obj k | _ \<Rightarrow> None)"

text \<open>\<^verbatim>\<open>x?.[k]\<close>, with \<open>x\<close> possibly \<^verbatim>\<open>undefined\<close>.\<close>

definition optionalMember :: "json option \<Rightarrow> jsstring \<Rightarrow> json option" where
  "optionalMember x k =
     (case x of None \<Rightarrow> None | Some JNull \<Rightarrow> None | Some v \<Rightarrow> getMember v k)"

section \<open>Answers, options and the package manager\<close>

datatype language = JavaScript | TypeScript

datatype framework = react | react17 | vue | vue2 | svelte | solid

fun frameworkName :: "framework \<Rightarrow> jsstring" where
  "frameworkName react = js ''react''"
| "frameworkName react17 = js ''react17''"
| "frameworkName vue = js ''vue''"
| "frameworkName vue2 = js ''vue2''"
| "frameworkName svelte = js ''svelte''"
| "frameworkName solid = js ''solid''"

record PromptOptions =
  testDir :: jsstring
  installGitHubActions :: bool
  language :: language
  framework :: "framework option"
  installPlaywrightDependencies :: bool
  installPlaywrightBrowsers :: bool

text \<open>
  \<^verbatim>\<open>Partial<Record<CliArgumentKey, string[]>>\<close>: every key is absent or carries a list
  of strings; the code tests a key for presence only (an array is truthy), except
  \<^verbatim>\<open>browser\<close>, whose list it reads.
\<close>

record CliOptions =
  opt_browser :: "jsstring list option"
  opt_no_browsers :: "jsstring list option"
  opt_no_examples :: "jsstring list option"
  opt_next :: "jsstring list option"
  opt_beta :: "jsstring list option"
  opt_ct :: "jsstring list option"
  opt_quiet :: "jsstring list option"
  opt_gha :: "jsstring list option"
  opt_install_deps :: "jsstring list option"
  opt_lang :: "jsstring list option"

text \<open>
  The \<^verbatim>\<open>PackageManager\<close> capability object of \<^verbatim>\<open>./packageManager\<close>: each function
  returns a ready-to-run shell string. It is a parameter of the generator.
\<close>

record PackageManager =
  pm_name :: jsstring
  pm_cli :: jsstring
  pm_init :: jsstring
  pm_npx :: "jsstring \<Rightarrow> jsstring \<Rightarrow> jsstring"
  pm_ci :: jsstring
  pm_i :: jsstring
  pm_installDevDependency :: "jsstring \<Rightarrow> jsstring"
  pm_runPlaywrightTest :: jsstring
  pm_run :: "jsstring \<Rightarrow> jsstring"

datatype phase = pre | post

record Command =
  name :: jsstring
  command :: jsstring
  phase :: phase

datatype directive = Show | Hide | Comment

text \<open>
  What \<^verbatim>\<open>_identifyChanges\<close> and \<^verbatim>\<open>run\<close> take from outside this file: the assets
  directory read by \<^verbatim>\<open>_readAsset\<close>; \<^verbatim>\<open>executeTemplate\<close>, \<^verbatim>\<open>languageToFileExtension\<close>
  and \<^verbatim>\<open>getFileExtensionCT\<close> of \<^verbatim>\<open>./utils\<close>; \<^verbatim>\<open>path.join\<close>; whether
  \<^verbatim>\<open>ini.parse\<close> of a \<^verbatim>\<open>.npmrc\<close> content has \<^verbatim>\<open>'package-lock'\<close> equal to
  \<^verbatim>\<open>false\<close>; what a shell command does to the files of the project (\<open>None\<close>: it exits
  with an error and \<^verbatim>\<open>execSync\<close> throws); the user's answer when \<^verbatim>\<open>createFiles\<close>
  finds a file in its way; and the text that \<^verbatim>\<open>JSON.stringify\<close> prints for the finite
  double of a number token.
\<close>

record Env =
  assets :: "jsstring \<Rightarrow> jsstring"
  executeTemplate :: "jsstring \<Rightarrow> (jsstring \<times> jsstring) list \<Rightarrow> (jsstring \<times> directive) list \<Rightarrow> jsstring"
  languageToFileExtension :: "language \<Rightarrow> jsstring"
  getFileExtensionCT :: "language \<Rightarrow> framework option \<Rightarrow> jsstring"
  path_join :: "jsstring \<Rightarrow> jsstring \<Rightarrow> jsstring"
  packageLockDisabled :: "jsstring \<Rightarrow> bool"
  execSync :: "jsstring \<Rightarrow> (jsstring \<rightharpoonup> jsstring) \<Rightarrow> (jsstring \<rightharpoonup> jsstring) option"
  override :: "jsstring \<Rightarrow> bool"
  numberToString :: "jsstring \<Rightarrow> jsstring"

record Generator =
  options :: CliOptions
  packageManager :: PackageManager

text \<open>\<^verbatim>\<open>Map.prototype.set\<close> on a map kept in insertion order.\<close>

fun Map_set :: "('k \<times> 'v) list \<Rightarrow> 'k \<Rightarrow> 'v \<Rightarrow> ('k \<times> 'v) list" where
  "Map_set [] k v = [(k, v)]"
| "Map_set (m # ms) k v = (if fst m = k then (k, v) # ms else m # Map_set ms k v)"

section \<open>\<^verbatim>\<open>Generator._hasDependency\<close>\<close>

text \<open>
  \<open>file\<close> is the content of \<^verbatim>\<open>package.json\<close>, \<open>None\<close> when there is no such file.
  The result is the truth value of what the method returns. Every exception inside the
  \<^verbatim>\<open>try\<close> (no file, a syntax error, a manifest that is \<^verbatim>\<open>null\<close>) gives \<^verbatim>\<open>false\<close>.
\<close>

definition hasDependency :: "jsstring option \<Rightarrow> jsstring \<Rightarrow> bool" where
  "hasDependency file pkg =
     (case file of
        None \<Rightarrow> False
      | Some text \<Rightarrow>
          (case JSON_parse text of
             None \<Rightarrow> False
           | Some JNull \<Rightarrow> False
           | Some packageJSON \<Rightarrow>
               truthy (optionalMember (getMember packageJSON (js ''dependencies'')) pkg) \<or>
               truthy (optionalMember (getMember packageJSON (js ''devDependencies'')) pkg) \<or>
               truthy (optionalMember (getMember packageJSON (js ''optionalDependencies'')) pkg)))"

section \<open>\<^verbatim>\<open>Generator._patchPackageJSON\<close>\<close>

text \<open>
  \<^verbatim>\<open>x?.includes('no test specified')\<close> for \<open>x = packageJSON.scripts['test']\<close>: skipped
  for \<^verbatim>\<open>undefined\<close> and \<^verbatim>\<open>null\<close>, \<^verbatim>\<open>String.prototype.includes\<close> on a string,
  \<^verbatim>\<open>Array.prototype.includes\<close> on an array, and a \<^verbatim>\<open>TypeError\<close> on a number, a boolean
  or an object, which have no callable \<^verbatim>\<open>includes\<close>.
\<close>

definition testIncludes :: "json option \<Rightarrow> error + bool" where
  "testIncludes x =
     (case x of
        None \<Rightarrow> Inr False
      | Some JNull \<Rightarrow> Inr False
      | Some (JStr s) \<Rightarrow> Inr (String_includes s (js ''no test specified''))
      | Some (JArr vs) \<Rightarrow> Inr (JStr (js ''no test specified'') \<in> set vs)
      | Some _ \<Rightarrow> Inl TypeError)"

text \<open>
  Lines 314 to 319 on the value of \<^verbatim>\<open>packageJSON.scripts\<close>, which is truthy there. On an
  array the read of \<^verbatim>\<open>'test'\<close> is \<^verbatim>\<open>undefined\<close> and the write of \<^verbatim>\<open>'test-ct'\<close>
  makes a property that \<^verbatim>\<open>JSON.stringify\<close> leaves out. On a string, a number or
  \<^verbatim>\<open>true\<close> the read is \<^verbatim>\<open>undefined\<close> and the write throws (class bodies are strict
  code).
\<close>

definition patchScripts :: "PromptOptions \<Rightarrow> jsstring \<Rightarrow> json \<Rightarrow> error + json" where
  "patchScripts answers extension scripts =
     (case scripts of
        JObj so \<Rightarrow>
          (case testIncludes (objGet so (js ''test'')) of
             Inl e \<Rightarrow> Inl e
           | Inr del \<Rightarrow>
               (let so1 = (if del then objDelete so (js ''test'') else so);
                    so2 = (if framework answers \<noteq> None
                           then objSet so1 (js ''test-ct'')
                                  (JStr (js ''playwright test -c playwright-ct.config.'' @ extension))
                           else so1)
                in Inr (JObj so2)))
      | JArr vs \<Rightarrow> Inr (JArr vs)
      | _ \<Rightarrow> if framework answers \<noteq> None then Inl TypeError else Inr scripts)"

text \<open>
  Lines 312 to 319 on the parsed manifest. An array takes \<^verbatim>\<open>scripts\<close> as a property
  that \<^verbatim>\<open>JSON.stringify\<close> leaves out; \<^verbatim>\<open>null\<close> has no properties to read; a string,
  a number or a boolean has no \<^verbatim>\<open>scripts\<close> and refuses the write.
\<close>

definition patchDocument :: "PromptOptions \<Rightarrow> jsstring \<Rightarrow> json \<Rightarrow> error + json" where
  "patchDocument answers extension packageJSON =
     (case packageJSON of
        JObj obj \<Rightarrow>
          (let obj1 = (if \<not> truthy (objGet obj (js ''scripts''))
                       then objSet obj (js ''scripts'') (JObj []) else obj)
           in case objGet obj1 (js ''scripts'') of
                None \<Rightarrow> Inl TypeError
              | Some scripts \<Rightarrow>
                  (case patchScripts answers extension scripts of
                     Inl e \<Rightarrow> Inl e
                   | Inr scripts' \<Rightarrow> Inr (JObj (objSet obj1 (js ''scripts'') scripts'))))
      | JArr vs \<Rightarrow> Inr (JArr vs)
      | _ \<Rightarrow> Inl TypeError)"

text \<open>
  \<open>file\<close> is the content of \<^verbatim>\<open>package.json\<close>, \<open>None\<close> when there is no such file;
  the result is the content handed to \<^verbatim>\<open>createFiles\<close>, or the exception thrown.
\<close>

definition patchPackageJSON :: "Env \<Rightarrow> PromptOptions \<Rightarrow> jsstring option \<Rightarrow> error + jsstring" where
  "patchPackageJSON env answers file =
     (case file of
        None \<Rightarrow> Inl ENOENT
      | Some text \<Rightarrow>
          (case JSON_parse text of
             None \<Rightarrow> Inl SyntaxError
           | Some packageJSON \<Rightarrow>
               (case patchDocument answers (languageToFileExtension env (language answers)) packageJSON of
                  Inl e \<Rightarrow> Inl e
                | Inr patched \<Rightarrow> Inr (JSON_stringify (numberToString env) patched @ js ''\<newline>''))))"

section \<open>\<^verbatim>\<open>Generator._identifyChanges\<close>\<close>

text \<open>
  \<^verbatim>\<open>for (const browserName of ['chromium', 'firefox', 'webkit'])
    sections.set(browserName, !this.options.browser ||
      this.options.browser.includes(browserName) ? 'show' : 'comment');\<close>
\<close>

definition buildSections :: "CliOptions \<Rightarrow> (jsstring \<times> directive) list" where
  "buildSections opts =
     foldl (\<lambda>sections browserName.
              Map_set sections browserName
                (if (case opt_browser opts of None \<Rightarrow> True | Some bs \<Rightarrow> browserName \<in> set bs)
                 then Show else Comment))
       [] [js ''chromium'', js ''firefox'', js ''webkit'']"

definition packageTag :: "CliOptions \<Rightarrow> jsstring" where
  "packageTag opts =
     (if opt_next opts \<noteq> None then js ''@next''
      else if opt_beta opts \<noteq> None then js ''@beta''
      else [])"

text \<open>\<^verbatim>\<open>Array.prototype.join\<close>.\<close>

fun join :: "jsstring \<Rightarrow> jsstring list \<Rightarrow> jsstring" where
  "join sep [] = []"
| "join sep [x] = x"
| "join sep (x # y # ys) = x @ sep @ join sep (y # ys)"

definition browsersSuffix :: "CliOptions \<Rightarrow> jsstring" where
  "browsersSuffix opts =
     (case opt_browser opts of None \<Rightarrow> [] | Some bs \<Rightarrow> js '' '' @ join (js '' '') bs)"

text \<open>
  The result is the pair of \<^verbatim>\<open>files\<close> and \<^verbatim>\<open>commands\<close>. \<open>disk\<close> maps the paths
  below \<^verbatim>\<open>rootDir\<close> to the contents of the files there. A template literal prints an
  \<^verbatim>\<open>undefined\<close> \<^verbatim>\<open>ctPackageName\<close> as \<^verbatim>\<open>undefined\<close>.
\<close>

definition identifyChanges ::
  "Env \<Rightarrow> Generator \<Rightarrow> (jsstring \<rightharpoonup> jsstring) \<Rightarrow> PromptOptions \<Rightarrow>
     (jsstring \<times> jsstring) list \<times> Command list" where
  "identifyChanges env this disk answers =
     (let opts = options this;
          pm = packageManager this;
          fileExtension = languageToFileExtension env (language answers);
          sections = buildSections opts;
          ctPackageName =
            (case framework answers of
               None \<Rightarrow> None
             | Some f \<Rightarrow> Some (js ''@playwright/experimental-ct-'' @ frameworkName f));
          installExamples = (framework answers = None \<and> opt_no_examples opts = None);
          files1 =
            (case ctPackageName of
               Some ct \<Rightarrow>
                 Map_set [] (js ''playwright-ct.config.'' @ fileExtension)
                   (executeTemplate env (assets env (js ''playwright-ct.config.'' @ fileExtension))
                      [(js ''testDir'', testDir answers), (js ''ctPackageName'', ct)] sections)
             | None \<Rightarrow>
                 Map_set [] (js ''playwright.config.'' @ fileExtension)
                   (executeTemplate env (assets env (js ''playwright.config.'' @ fileExtension))
                      [(js ''testDir'', testDir answers)] sections));
          files2 =
            (if installGitHubActions answers then
               Map_set files1 (js ''.github/workflows/playwright.yml'')
                 (executeTemplate env (assets env (js ''github-actions.yml''))
                    [(js ''installDepsCommand'',
                        if (case disk (js ''.npmrc'') of None \<Rightarrow> False
                            | Some npmrc \<Rightarrow> packageLockDisabled env npmrc)
                        then pm_i pm else pm_ci pm),
                     (js ''installPlaywrightCommand'',
                        pm_npx pm (js ''playwright'') (js ''install --with-deps'')),
                     (js ''runTestsCommand'',
                        if framework answers \<noteq> None then pm_run pm (js ''test-ct'')
                        else pm_runPlaywrightTest pm)]
                    [])
             else files1);
          files3 =
            (if installExamples then
               Map_set
                 (Map_set files2 (path_join env (testDir answers) (js ''example.spec.'' @ fileExtension))
                    (assets env (js ''example.spec.'' @ fileExtension)))
                 (path_join env (js ''tests-examples'') (js ''demo-todo-app.spec.'' @ fileExtension))
                 (assets env (js ''demo-todo-app.spec.'' @ fileExtension))
             else files2);
          commands1 =
            (if disk (js ''package.json'') = None then
               [\<lparr>name = js ''Initializing '' @ pm_name pm @ js '' project'',
                 command = pm_init pm, phase = pre\<rparr>]
             else []);
          commands2 =
            (if opt_ct opts = None then
               commands1 @
               [\<lparr>name = js ''Installing Playwright Test'',
                 command = pm_installDevDependency pm (js ''@playwright/test'' @ packageTag opts),
                 phase = pre\<rparr>,
                \<lparr>name = js ''Installing dotenv'',
                 command = pm_installDevDependency pm (js ''dotenv''),
                 phase = pre\<rparr>,
                \<lparr>name = js ''Installing dxp/playwright-tools'',
                 command = pm_installDevDependency pm (js ''@dxp/playwright-tools'' @ packageTag opts),
                 phase = pre\<rparr>]
             else commands1);
          extension = getFileExtensionCT env (language answers) (framework answers);
          commands3 =
            (if opt_ct opts \<noteq> None then
               commands2 @
               [\<lparr>name = js ''Installing Playwright Component Testing'',
                 command = pm_installDevDependency pm
                   ((case ctPackageName of None \<Rightarrow> js ''undefined'' | Some ct \<Rightarrow> ct) @ packageTag opts),
                 phase = pre\<rparr>]
             else commands2);
          files4 =
            (if opt_ct opts \<noteq> None then
               Map_set
                 (Map_set files3 (js ''playwright/index.html'')
                    (executeTemplate env (assets env (path_join env (js ''playwright'') (js ''index.html'')))
                       [(js ''extension'', extension)] []))
                 (js ''playwright/index.'' @ extension)
                 (assets env (path_join env (js ''playwright'') (js ''index.js'')))
             else files3);
          commands4 =
            (if \<not> hasDependency (disk (js ''package.json'')) (js ''@types/node'') then
               commands3 @
               [\<lparr>name = js ''Installing Types'',
                 command = pm_installDevDependency pm (js ''@types/node''),
                 phase = pre\<rparr>]
             else commands3);
          commands5 =
            (if installPlaywrightBrowsers answers then
               commands4 @
               [\<lparr>name = js ''Downloading browsers'',
                 command = pm_npx pm (js ''playwright'') (js ''install'') @
                   (if installPlaywrightDependencies answers then js '' --with-deps'' else []) @
                   browsersSuffix opts,
                 phase = post\<rparr>]
             else commands4)
      in (files4, commands5))"

section \<open>\<^verbatim>\<open>Generator.run\<close>\<close>

text \<open>
  What a run does to the world is kept as a trace: \<open>Exec c\<close> when the shell ran the
  command \<open>c\<close> (also when it failed), \<open>Write p\<close> when the file at \<open>p\<close> was written.
\<close>

datatype event = Exec Command | Write jsstring

record World =
  disk :: "jsstring \<rightharpoonup> jsstring"
  trace :: "event list"

text \<open>
  Modelled from the spec: \<^verbatim>\<open>executeCommands\<close> of \<^verbatim>\<open>./utils\<close>, which is not among the
  sources. Each command completes before the next one of the list starts, and the first
  failure aborts the rest (sections 4.3 and 5).
\<close>

fun executeCommands :: "Env \<Rightarrow> Command list \<Rightarrow> World \<Rightarrow> error option \<times> World" where
  "executeCommands env [] w = (None, w)"
| "executeCommands env (c # cs) w =
     (case execSync env (command c) (disk w) of
        None \<Rightarrow> (Some (CommandFailed (command c)), w\<lparr>trace := trace w @ [Exec c]\<rparr>)
      | Some d \<Rightarrow> executeCommands env cs (w\<lparr>disk := d, trace := trace w @ [Exec c]\<rparr>))"

text \<open>
  Modelled from the spec: \<^verbatim>\<open>createFiles\<close> of \<^verbatim>\<open>./utils\<close>, which is not among the
  sources. Every path not yet present is written with its content as it is; a path that is
  present is overwritten when the call forces it (the third argument) or the user agrees
  (section 4.4, wholesale write).
\<close>

fun createFiles :: "Env \<Rightarrow> (jsstring \<times> jsstring) list \<Rightarrow> bool \<Rightarrow> World \<Rightarrow> World" where
  "createFiles env [] force w = w"
| "createFiles env (f # fs) force w =
     (if disk w (fst f) \<noteq> None \<and> \<not> force \<and> \<not> override env (fst f)
      then createFiles env fs force w
      else createFiles env fs force
             (w\<lparr>disk := (disk w)(fst f \<mapsto> snd f), trace := trace w @ [Write (fst f)]\<rparr>))"

definition Generator_patchGitIgnore :: "World \<Rightarrow> World" where
  "Generator_patchGitIgnore w =
     w\<lparr>disk := (disk w)(js ''.gitignore'' \<mapsto> patchGitIgnore (disk w (js ''.gitignore''))),
       trace := trace w @ [Write (js ''.gitignore'')]\<rparr>"

definition Generator_patchPackageJSON :: "Env \<Rightarrow> PromptOptions \<Rightarrow> World \<Rightarrow> error option \<times> World" where
  "Generator_patchPackageJSON env answers w =
     (case patchPackageJSON env answers (disk w (js ''package.json'')) of
        Inl e \<Rightarrow> (Some e, w)
      | Inr content \<Rightarrow> (None, createFiles env [(js ''package.json'', content)] True w))"

text \<open>
  \<^verbatim>\<open>allCommands.reduce((acc, command) => {
    acc[command.phase === 'pre' ? 0 : 1].push(command); return acc; }, [[], []])\<close>
\<close>

definition partitionCommands :: "Command list \<Rightarrow> Command list \<times> Command list" where
  "partitionCommands allCommands =
     foldl (\<lambda>acc command.
              if phase command = pre then (fst acc @ [command], snd acc)
              else (fst acc, snd acc @ [command]))
       ([], []) allCommands"

text \<open>Lines 61 to 69 of \<^verbatim>\<open>run\<close>: what is done with the files and commands identified.\<close>

definition applyChanges ::
  "Env \<Rightarrow> PromptOptions \<Rightarrow> (jsstring \<times> jsstring) list \<Rightarrow> Command list \<Rightarrow> World \<Rightarrow>
     error option \<times> World" where
  "applyChanges env answers files allCommands w =
     (case partitionCommands allCommands of
        (preCommands, postCommands) \<Rightarrow>
          (case executeCommands env preCommands w of
             (Some e, w1) \<Rightarrow> (Some e, w1)
           | (None, w1) \<Rightarrow>
               (case Generator_patchPackageJSON env answers
                       (Generator_patchGitIgnore (createFiles env files False w1)) of
                  (Some e, w2) \<Rightarrow> (Some e, w2)
                | (None, w2) \<Rightarrow> executeCommands env postCommands w2)))"

definition run :: "Env \<Rightarrow> Generator \<Rightarrow> PromptOptions \<Rightarrow> World \<Rightarrow> error option \<times> World" where
  "run env this answers w =
     (case identifyChanges env this (disk w) answers of
        (files, allCommands) \<Rightarrow> applyChanges env answers files allCommands w)"

section \<open>The template engine\<close>

text \<open>
  Modelled from the spec: \<^verbatim>\<open>executeTemplate\<close> of \<^verbatim>\<open>./utils\<close>, which is not among the
  sources (sections 4.1, 4.2 and 6). Every placeholder \<^verbatim>\<open>{{name}}\<close> whose name is in the
  variable map is replaced by its value, in a single pass from left to right that does not
  scan a value again; another placeholder stays as it is.
\<close>

fun substituteFrom :: "(jsstring \<times> jsstring) list \<Rightarrow> nat \<Rightarrow> jsstring \<Rightarrow> jsstring" where
  "substituteFrom vars k [] = []"
| "substituteFrom vars (Suc k) (c # cs) = substituteFrom vars k cs"
| "substituteFrom vars 0 (c # cs) =
     (case find (\<lambda>var. prefix (js ''{{'' @ fst var @ js ''}}'') (c # cs)) vars of
        Some var \<Rightarrow> snd var @ substituteFrom vars (length (fst var) + 3) cs
      | None \<Rightarrow> c # substituteFrom vars 0 cs)"

definition substitute :: "(jsstring \<times> jsstring) list \<Rightarrow> jsstring \<Rightarrow> jsstring" where
  "substitute vars template = substituteFrom vars 0 template"

fun splitLines :: "jsstring \<Rightarrow> jsstring list" where
  "splitLines [] = [[]]"
| "splitLines (c # cs) =
     (if c = 0x0A then [] # splitLines cs
      else (case splitLines cs of [] \<Rightarrow> [[c]] | l # ls \<Rightarrow> (c # l) # ls))"

definition joinLines :: "jsstring list \<Rightarrow> jsstring" where
  "joinLines ls = join (js ''\<newline>'') ls"

text \<open>
  Modelled from the spec: a marker is a line comment, in the script style (\<^verbatim>\<open>//\<close>, as in
  the configuration asset: \<^verbatim>\<open>//--begin-chromium\<close>) or in the style of the workflow file
  (\<^verbatim>\<open>#\<close>), that holds \<^verbatim>\<open>--begin-<name>\<close> or \<^verbatim>\<open>--end-<name>\<close> behind the indentation
  of its line. \<open>markerName kind line\<close> is the comment token and the section name of a
  marker line of that kind.
\<close>

definition commentTokens :: "jsstring list" where
  "commentTokens = [js ''//'', js ''#'']"

definition isBlank :: "u16 \<Rightarrow> bool" where
  "isBlank c = (c = 0x20 \<or> c = 0x09)"

definition markerName :: "jsstring \<Rightarrow> jsstring \<Rightarrow> (jsstring \<times> jsstring) option" where
  "markerName kind line =
     (let body = dropWhile isBlank line
      in case find (\<lambda>tok. prefix (tok @ js ''--'' @ kind @ js ''-'') body) commentTokens of
           None \<Rightarrow> None
         | Some tok \<Rightarrow> Some (tok, drop (length tok + length kind + 3) body))"

text \<open>A section that the directive map does not mention is shown.\<close>

definition directiveOf :: "(jsstring \<times> directive) list \<Rightarrow> jsstring \<Rightarrow> directive" where
  "directiveOf sections n = (case map_of sections n of None \<Rightarrow> Show | Some d \<Rightarrow> d)"

definition consLine :: "jsstring \<Rightarrow> error + jsstring list \<Rightarrow> error + jsstring list" where
  "consLine l r = (case r of Inl e \<Rightarrow> Inl e | Inr ls \<Rightarrow> Inr (l # ls))"

text \<open>
  Modelled from the spec: the section filter (section 4.2). The second argument is the
  section that is open, with the comment token of its begin marker. \<open>Show\<close> strips the
  markers and keeps the inner lines, \<open>Hide\<close> removes the block, \<open>Comment\<close> strips the
  markers and puts the comment token in front of every inner line. Markers come in pairs
  and sections do not nest: any other marker is the fatal error of a malformed asset.
\<close>

fun resolveLines ::
  "(jsstring \<times> directive) list \<Rightarrow> (jsstring \<times> jsstring) option \<Rightarrow> jsstring list \<Rightarrow>
     error + jsstring list" where
  "resolveLines sections None [] = Inr []"
| "resolveLines sections (Some opened) [] = Inl UnmatchedMarker"
| "resolveLines sections None (l # ls) =
     (case markerName (js ''begin'') l of
        Some opened \<Rightarrow> resolveLines sections (Some opened) ls
      | None \<Rightarrow>
          (case markerName (js ''end'') l of
             Some closed \<Rightarrow> Inl UnmatchedMarker
           | None \<Rightarrow> consLine l (resolveLines sections None ls)))"
| "resolveLines sections (Some opened) (l # ls) =
     (case markerName (js ''end'') l of
        Some closed \<Rightarrow>
          if snd closed = snd opened then resolveLines sections None ls else Inl UnmatchedMarker
      | None \<Rightarrow>
          (case markerName (js ''begin'') l of
             Some nested \<Rightarrow> Inl UnmatchedMarker
           | None \<Rightarrow>
               (case directiveOf sections (snd opened) of
                  Show \<Rightarrow> consLine l (resolveLines sections (Some opened) ls)
                | Hide \<Rightarrow> resolveLines sections (Some opened) ls
                | Comment \<Rightarrow> consLine (fst opened @ l) (resolveLines sections (Some opened) ls))))"

definition renderTemplate ::
  "jsstring \<Rightarrow> (jsstring \<times> jsstring) list \<Rightarrow> (jsstring \<times> directive) list \<Rightarrow> error + jsstring" where
  "renderTemplate template vars sections =
     (case resolveLines sections None (splitLines (substitute vars template)) of
        Inl e \<Rightarrow> Inl e
      | Inr ls \<Rightarrow> Inr (joinLines ls))"

section \<open>Concrete instances\<close>

text \<open>
  A package manager, an environment, answers and a project directory on which the
  definitions are evaluated below.
\<close>

definition examplePackageManager :: PackageManager where
  "examplePackageManager =
     \<lparr>pm_name = js ''npm'', pm_cli = js ''npm'', pm_init = js ''npm init -y'',
      pm_npx = (\<lambda>tool args. js ''npx '' @ tool @ js '' '' @ args),
      pm_ci = js ''npm ci'', pm_i = js ''npm i'',
      pm_installDevDependency = (\<lambda>p. js ''npm install --save-dev '' @ p),
      pm_runPlaywrightTest = js ''npx playwright test'',
      pm_run = (\<lambda>script. js ''npm run '' @ script)\<rparr>"

definition exampleEnv :: Env where
  "exampleEnv =
     \<lparr>assets = (\<lambda>asset. []),
      executeTemplate = (\<lambda>template vars sections. template),
      languageToFileExtension = (\<lambda>l. case l of JavaScript \<Rightarrow> js ''js'' | TypeScript \<Rightarrow> js ''ts''),
      getFileExtensionCT = (\<lambda>l f. case l of JavaScript \<Rightarrow> js ''js'' | TypeScript \<Rightarrow> js ''ts''),
      path_join = (\<lambda>a b. a @ js ''/'' @ b),
      packageLockDisabled = (\<lambda>npmrc. False),
      execSync = (\<lambda>cmd d. Some d),
      override = (\<lambda>path. False),
      numberToString = (\<lambda>token. token)\<rparr>"

definition exampleAnswers :: PromptOptions where
  "exampleAnswers =
     \<lparr>testDir = js ''tests'', installGitHubActions = False, language = TypeScript,
      framework = None, installPlaywrightDependencies = False,
      installPlaywrightBrowsers = True\<rparr>"

definition exampleWorld :: World where
  \<open>exampleWorld = \<lparr>disk = [js ''package.json'' \<mapsto> js ''{"name": "demo"}''], trace = []\<rparr>\<close>

definition commandA :: Command where
  "commandA = \<lparr>name = js ''A'', command = js ''a'', phase = pre\<rparr>"
definition commandB :: Command where
  "commandB = \<lparr>name = js ''B'', command = js ''b'', phase = post\<rparr>"
definition commandC :: Command where
  "commandC = \<lparr>name = js ''C'', command = js ''c'', phase = pre\<rparr>"

definition exampleOptions :: CliOptions where
  "exampleOptions =
     \<lparr>opt_browser = None, opt_no_browsers = None, opt_no_examples = None, opt_next = None,
      opt_beta = None, opt_ct = None, opt_quiet = None, opt_gha = None,
      opt_install_deps = None, opt_lang = None\<rparr>"

definition betaGenerator :: Generator where
  "betaGenerator =
     \<lparr>options = exampleOptions\<lparr>opt_beta := Some []\<rparr>, packageManager = examplePackageManager\<rparr>"

definition templateEnv :: Env where
  "templateEnv =
     exampleEnv\<lparr>
       assets := (\<lambda>asset.
         js ''testDir: ./{{testDir}},\<newline>projects: [\<newline>    //--begin-chromium\<newline>    { name: chromium },\<newline>    //--end-chromium\<newline>    //--begin-firefox\<newline>    { name: firefox },\<newline>    //--end-firefox\<newline>],\<newline>''),
       executeTemplate := (\<lambda>template vars sections.
         case renderTemplate template vars sections of Inl e \<Rightarrow> [] | Inr text \<Rightarrow> text)\<rparr>"

definition chromiumGenerator :: Generator where
  "chromiumGenerator =
     \<lparr>options = exampleOptions\<lparr>opt_browser := Some [js ''chromium'']\<rparr>,
      packageManager = examplePackageManager\<rparr>"

definition reactAnswers :: PromptOptions where
  "reactAnswers = exampleAnswers\<lparr>framework := Some react\<rparr>"

text \<open>
  The \<^verbatim>\<open>test\<close> script that \<^verbatim>\<open>npm init\<close> writes, and a manifest with that script
  alone.
\<close>

definition placeholderScript :: jsstring where
  \<open>placeholderScript = js ''echo "Error: no test specified" && exit 1''\<close>

definition placeholderManifest :: jsstring where
  \<open>placeholderManifest =
     js ''{"scripts":{"test":"echo '' @ [0x5C, 0x22] @ js ''Error: no test specified'' @
     [0x5C, 0x22] @ js '' && exit 1"}}''\<close>


section \<open>Auxiliary notions for the proofs about \<^verbatim>\<open>.gitignore\<close>\<close>

text \<open>
  \<open>lt_free\<close>: the pattern element consumes no line terminator. \<open>nl_ended\<close>: the text is
  empty or ends in a line feed. \<open>tidy\<close>: reading the text back (\<^verbatim>\<open>trimEnd() + '\\n'\<close>)
  gives the text itself.
\<close>

fun lt_free :: "rx \<Rightarrow> bool" where
  "lt_free (Chr c) = (\<not> isLineTerminator c)"
| "lt_free (Opt c) = (\<not> isLineTerminator c)"
| "lt_free _ = True"

definition nl_ended :: "jsstring \<Rightarrow> bool" where
  "nl_ended g = (g = [] \<or> last g = 0x0A)"

definition tidy :: "jsstring \<Rightarrow> bool" where
  "tidy g = (trimEnd g @ js ''\<newline>'' = g)"

(*THEOREMS*)

section \<open>Properties of the regular-expression matcher\<close>

lemma rx_search_iff:
  "rx_search r prev s \<longleftrightarrow>
     (\<exists>u v. s = u @ v \<and> rx_match r (if u = [] then prev else Some (last u)) v)"
proof (induction s arbitrary: prev)
  case Nil
  then show ?case by simp
next
  case (Cons x xs)
  show ?case
  proof
    assume "rx_search r prev (x # xs)"
    then consider "rx_match r prev (x # xs)" | "rx_search r (Some x) xs" by auto
    then show "\<exists>u v. x # xs = u @ v \<and> rx_match r (if u = [] then prev else Some (last u)) v"
    proof cases
      case 1
      then have "x # xs = [] @ (x # xs) \<and> rx_match r (if [] = ([]::jsstring) then prev else Some (last [])) (x # xs)"
        by simp
      then show ?thesis by blast
    next
      case 2
      then obtain u v where uv: "xs = u @ v" "rx_match r (if u = [] then Some x else Some (last u)) v"
        using Cons.IH by blast
      then have "x # xs = (x # u) @ v \<and> rx_match r (if x # u = [] then prev else Some (last (x # u))) v"
        by (cases u) auto
      then show ?thesis by blast
    qed
  next
    assume "\<exists>u v. x # xs = u @ v \<and> rx_match r (if u = [] then prev else Some (last u)) v"
    then obtain u v where uv: "x # xs = u @ v" "rx_match r (if u = [] then prev else Some (last u)) v"
      by blast
    show "rx_search r prev (x # xs)"
    proof (cases u)
      case Nil
      with uv show ?thesis by auto
    next
      case (Cons y u')
      with uv have "xs = u' @ v" "rx_match r (if u' = [] then Some x else Some (last u')) v"
        by (auto split: if_splits)
      then have "rx_search r (Some x) xs" using Cons.IH by blast
      then show ?thesis by simp
    qed
  qed
qed

lemma rx_match_append:
  "rx_match r prev s \<Longrightarrow> list_all lt_free r \<Longrightarrow> s \<noteq> [] \<Longrightarrow> isLineTerminator (last s)
     \<Longrightarrow> rx_match r prev (s @ t)"
proof (induction r prev s rule: rx_match.induct)
  case (1 prev s)
  then show ?case by simp
next
  case (2 r prev s)
  then show ?case by simp
next
  case (3 r prev s)
  then show ?case by (cases s) auto
next
  case (4 c r prev s)
  then show ?case by (cases s) (auto split: if_splits)
next
  case (5 c r prev s)
  then show ?case by (cases s) (auto split: if_splits)
qed

lemma rx_match_nil_prev:
  "rx_match r prev [] \<Longrightarrow> rx_match r None []"
  by (induction r prev "[] :: jsstring" rule: rx_match.induct) auto

lemma String_match_append:
  assumes m: "String_match g r" and g: "nl_ended g" and r: "list_all lt_free r" "\<not> rx_match r None []"
  shows "String_match (g @ t) r"
proof -
  from m obtain u v where uv: "g = u @ v" "rx_match r (if u = [] then None else Some (last u)) v"
    unfolding String_match_def rx_search_iff by blast
  have "v \<noteq> []" using uv(2) r(2) rx_match_nil_prev by (cases "u = []") auto
  with uv(1) g have "isLineTerminator (last v)"
    by (auto simp: nl_ended_def isLineTerminator_def)
  with uv(2) r(1) \<open>v \<noteq> []\<close> have "rx_match r (if u = [] then None else Some (last u)) (v @ t)"
    by (rule_tac rx_match_append)
  moreover have "g @ t = u @ (v @ t)" using uv(1) by simp
  ultimately show ?thesis unfolding String_match_def rx_search_iff by blast
qed

lemma String_match_fresh:
  assumes g: "nl_ended g" and m: "rx_match r None (v @ js ''\<newline>'')" "rx_match r (Some 0x0A) (v @ js ''\<newline>'')"
  shows "String_match (g @ v @ js ''\<newline>'') r"
proof -
  have "rx_match r (if g = [] then None else Some (last g)) (v @ js ''\<newline>'')"
    using g m by (auto simp: nl_ended_def)
  then show ?thesis unfolding String_match_def rx_search_iff by blast
qed

lemma valuesToAdd_fresh:
  "(v, r) \<in> set valuesToAdd \<Longrightarrow>
     rx_match r None (v @ js ''\<newline>'') \<and> rx_match r (Some 0x0A) (v @ js ''\<newline>'')"
  by (auto simp: valuesToAdd_def lit_def js_def slash_def isLineTerminator_def)

lemma valuesToAdd_good:
  "(v, r) \<in> set valuesToAdd \<Longrightarrow> list_all lt_free r \<and> \<not> rx_match r None []"
  by (auto simp: valuesToAdd_def lit_def js_def slash_def isLineTerminator_def)

lemma valuesToAdd_value:
  "(v, r) \<in> set valuesToAdd \<Longrightarrow> v \<noteq> [] \<and> \<not> isWhiteSpace (last v)"
  by (auto simp: valuesToAdd_def js_def isWhiteSpace_def isLineTerminator_def)

lemma trimEnd_snoc_nl: "trimEnd (s @ js ''\<newline>'') = trimEnd s"
  by (simp add: trimEnd_def js_def isWhiteSpace_def isLineTerminator_def)

lemma trimEnd_keep: "s \<noteq> [] \<Longrightarrow> \<not> isWhiteSpace (last s) \<Longrightarrow> trimEnd s = s"
  by (cases s rule: rev_cases) (auto simp: trimEnd_def)

lemma trimEnd_idem: "trimEnd (trimEnd s) = trimEnd s"
  by (simp add: trimEnd_def)

lemma tidy_init: "tidy (trimEnd c @ js ''\<newline>'')"
  by (simp only: tidy_def trimEnd_snoc_nl trimEnd_idem)

lemma tidy_fresh:
  assumes "v \<noteq> []" "\<not> isWhiteSpace (last v)"
  shows "tidy (g @ v @ js ''\<newline>'')"
proof -
  have "trimEnd ((g @ v) @ js ''\<newline>'') = trimEnd (g @ v)" by (rule trimEnd_snoc_nl)
  also have "\<dots> = g @ v" using assms by (intro trimEnd_keep) auto
  finally show ?thesis by (simp add: tidy_def)
qed

lemma nl_ended_snoc: "nl_ended (g @ v @ js ''\<newline>'')"
  by (simp add: nl_ended_def js_def)

lemma addValue_step:
  assumes e: "(v, r) \<in> set valuesToAdd" and g: "nl_ended g"
  shows "case addValue (g, f) (v, r) of (g1, f1) \<Rightarrow>
           nl_ended g1 \<and> (g1 = g \<or> tidy g1) \<and> (\<exists>t. g1 = g @ t) \<and> String_match g1 r"
proof (cases "String_match g r")
  case True
  then show ?thesis using g by (simp add: addValue_def)
next
  case False
  define h where "h = (if f then g @ js ''\<newline># Playwright\<newline>'' else g)"
  have h: "nl_ended h" using g by (simp add: h_def nl_ended_def js_def)
  have g1: "addValue (g, f) (v, r) = (h @ v @ js ''\<newline>'', False)"
    using False by (simp add: addValue_def h_def)
  have "String_match (h @ v @ js ''\<newline>'') r"
    using h valuesToAdd_fresh[OF e] by (intro String_match_fresh) auto
  moreover have "tidy (h @ v @ js ''\<newline>'')"
    using valuesToAdd_value[OF e] by (intro tidy_fresh) auto
  moreover have "\<exists>t. h @ v @ js ''\<newline>'' = g @ t" by (simp add: h_def)
  ultimately show ?thesis by (simp add: g1 nl_ended_snoc)
qed

lemma addValues_inv:
  assumes "set es \<subseteq> set valuesToAdd" "nl_ended g"
  shows "case foldl addValue (g, f) es of (g', f') \<Rightarrow>
           nl_ended g' \<and> (g' = g \<or> tidy g') \<and>
           (\<forall>(v, r) \<in> set valuesToAdd. String_match g r \<longrightarrow> String_match g' r) \<and>
           (\<forall>(v, r) \<in> set es. String_match g' r)"
  using assms
proof (induction es arbitrary: g f)
  case Nil
  then show ?case by simp
next
  case (Cons e es)
  obtain v r where e: "e = (v, r)" by (cases e)
  obtain g1 f1 where st: "addValue (g, f) (v, r) = (g1, f1)" by (cases "addValue (g, f) (v, r)")
  have mem: "(v, r) \<in> set valuesToAdd" using Cons.prems(1) e by simp
  from addValue_step[OF mem Cons.prems(2), of f] st
  have s1: "nl_ended g1" "g1 = g \<or> tidy g1" "\<exists>t. g1 = g @ t" "String_match g1 r"
    by auto
  obtain g' f' where fin: "foldl addValue (g1, f1) es = (g', f')"
    by (cases "foldl addValue (g1, f1) es")
  have "set es \<subseteq> set valuesToAdd" using Cons.prems(1) by simp
  from Cons.IH[OF this s1(1), of f1] fin
  have s2: "nl_ended g'" "g' = g1 \<or> tidy g'"
    "\<forall>(v, r) \<in> set valuesToAdd. String_match g1 r \<longrightarrow> String_match g' r"
    "\<forall>(v, r) \<in> set es. String_match g' r"
    by auto
  have keep: "\<forall>(w, q) \<in> set valuesToAdd. String_match g q \<longrightarrow> String_match g1 q"
  proof clarify
    fix w q assume wq: "(w, q) \<in> set valuesToAdd" and m: "String_match g q"
    from s1(3) obtain t where "g1 = g @ t" by blast
    then show "String_match g1 q"
      using String_match_append[OF m Cons.prems(2)] valuesToAdd_good[OF wq] by simp
  qed
  have "String_match g' r" using s2(3) mem s1(4) by auto
  moreover have "g' = g \<or> tidy g'" using s1(2) s2(2) by auto
  moreover have "\<forall>(v, r) \<in> set valuesToAdd. String_match g r \<longrightarrow> String_match g' r"
    using keep s2(3) by fastforce
  ultimately show ?case using s2(1) s2(4) by (simp add: e st fin)
qed

lemma addValues_noop:
  "\<forall>(v, r) \<in> set es. String_match g r \<Longrightarrow> foldl addValue (g, f) es = (g, f)"
  by (induction es) (auto simp: addValue_def)

lemma String_match_empty:
  "(v, r) \<in> set valuesToAdd \<Longrightarrow> \<not> String_match [] r"
  using valuesToAdd_good by (simp add: String_match_def)

section \<open>Idempotence of the ignore-file patch\<close>

text \<open>
  Claim C2. The ignore-file patch is idempotent: whatever \<^verbatim>\<open>.gitignore\<close> held (or when
  there was none), patching the content that one patch wrote gives that same content
  again; the second application appends no entry and no heading comment.
\<close>

theorem patchGitIgnore_idempotent:
  "patchGitIgnore (Some (patchGitIgnore existing)) = patchGitIgnore existing"
proof -
  define g0 where "g0 = (case existing of None \<Rightarrow> [] | Some c \<Rightarrow> trimEnd c @ js ''\<newline>'')"
  obtain R f where fin: "foldl addValue (g0, True) valuesToAdd = (R, f)"
    by (cases "foldl addValue (g0, True) valuesToAdd")
  have R: "patchGitIgnore existing = R"
    by (simp add: patchGitIgnore_def g0_def[symmetric] fin)
  have g0: "nl_ended g0"
    by (simp add: g0_def nl_ended_def js_def split: option.split)
  from addValues_inv[OF subset_refl g0, of True] fin
  have inv: "g0 = R \<or> tidy R" "\<forall>(v, r) \<in> set valuesToAdd. String_match R r"
    by auto
  have "tidy R"
  proof (cases existing)
    case None
    then have "g0 = []" by (simp add: g0_def)
    moreover have "R \<noteq> []"
      using inv(2) String_match_empty by (fastforce simp: valuesToAdd_def)
    ultimately show ?thesis using inv(1) by auto
  next
    case (Some c)
    then have "tidy g0" by (simp add: g0_def tidy_init)
    then show ?thesis using inv(1) by auto
  qed
  then have "trimEnd R @ js ''\<newline>'' = R" by (simp add: tidy_def)
  then have "patchGitIgnore (Some R) = fst (foldl addValue (R, True) valuesToAdd)"
    by (simp add: patchGitIgnore_def)
  also have "\<dots> = R" using addValues_noop[OF inv(2)] by simp
  finally show ?thesis by (simp add: R)
qed

section \<open>What the ignore-file patch appends\<close>

lemma rx_match_shrink:
  "rx_match r prev (s @ t) \<Longrightarrow> list_all lt_free r \<Longrightarrow> s \<noteq> [] \<Longrightarrow> isLineTerminator (last s)
     \<Longrightarrow> rx_match r prev s"
proof (induction r prev s rule: rx_match.induct)
  case (1 prev s)
  then show ?case by simp
next
  case (2 r prev s)
  then show ?case by simp
next
  case (3 r prev s)
  then show ?case by (cases s) auto
next
  case (4 c r prev s)
  then show ?case by (cases s) (auto split: if_splits)
next
  case (5 c r prev s)
  then show ?case by (cases s) (auto split: if_splits)
qed

lemma String_match_split:
  assumes m: "String_match (g @ t) r" and g: "nl_ended g" and r: "list_all lt_free r"
  shows "String_match g r \<or> rx_search r (if g = [] then None else Some 0x0A) t"
proof -
  from m obtain u v where uv: "g @ t = u @ v" "rx_match r (if u = [] then None else Some (last u)) v"
    unfolding String_match_def rx_search_iff by blast
  from uv(1) obtain us where "g = u @ us \<and> us @ t = v \<or> g @ us = u \<and> t = us @ v"
    unfolding append_eq_append_conv2 by blast
  then consider w where "u = g @ w" "t = w @ v" | w where "w \<noteq> []" "g = u @ w" "v = w @ t"
    by (cases "us = []") auto
  then show ?thesis
  proof cases
    case 1
    define p0 :: "u16 option" where "p0 = (if g = [] then None else Some 0x0A)"
    have "rx_match r (if w = [] then p0 else Some (last w)) v"
    proof (cases "w = []")
      case True
      with 1(1) have "u = g" by simp
      moreover have "g \<noteq> [] \<Longrightarrow> last g = 0x0A" using g by (simp add: nl_ended_def)
      ultimately show ?thesis using uv(2) True by (cases "g = []") (simp_all add: p0_def)
    next
      case False
      with 1(1) uv(2) show ?thesis by simp
    qed
    with 1(2) have "\<exists>u' v'. t = u' @ v' \<and> rx_match r (if u' = [] then p0 else Some (last u')) v'"
      by blast
    then have "rx_search r p0 t" by (simp only: rx_search_iff)
    then show ?thesis unfolding p0_def ..
  next
    case 2
    have "last w = last g" using 2(1,2) by simp
    moreover have "g \<noteq> []" using 2(1,2) by simp
    ultimately have lt: "isLineTerminator (last w)"
      using g by (simp add: nl_ended_def isLineTerminator_def)
    from uv(2) have "rx_match r (if u = [] then None else Some (last u)) (w @ t)"
      by (simp only: 2(3))
    from rx_match_shrink[OF this r 2(1) lt] 2(2)
    have "\<exists>u' v'. g = u' @ v' \<and> rx_match r (if u' = [] then None else Some (last u')) v'"
      by blast
    then have "String_match g r" by (simp only: String_match_def rx_search_iff)
    then show ?thesis ..
  qed
qed

lemma others_unmatched:
  "list_all (\<lambda>e. list_all (\<lambda>e'. fst e = fst e' \<or>
      \<not> (rx_search (snd e') None (fst e @ js ''\<newline>'') \<or>
         rx_search (snd e') (Some 0x0A) (fst e @ js ''\<newline>'') \<or>
         rx_search (snd e') None (js ''\<newline># Playwright\<newline>'' @ fst e @ js ''\<newline>'') \<or>
         rx_search (snd e') (Some 0x0A) (js ''\<newline># Playwright\<newline>'' @ fst e @ js ''\<newline>'')))
      valuesToAdd) valuesToAdd"
  by code_simp

lemma others_unmatched_at:
  assumes e: "e \<in> set valuesToAdd" and e': "e' \<in> set valuesToAdd" and ne: "fst e \<noteq> fst e'"
  shows "\<not> rx_search (snd e') None (fst e @ js ''\<newline>'')"
    "\<not> rx_search (snd e') (Some 0x0A) (fst e @ js ''\<newline>'')"
    "\<not> rx_search (snd e') None (js ''\<newline># Playwright\<newline>'' @ fst e @ js ''\<newline>'')"
    "\<not> rx_search (snd e') (Some 0x0A) (js ''\<newline># Playwright\<newline>'' @ fst e @ js ''\<newline>'')"
  using others_unmatched e e' ne unfolding list_all_iff by blast+

lemma String_match_stable:
  assumes e: "(v, r) \<in> set valuesToAdd" and e': "(w, q) \<in> set valuesToAdd" and ne: "v \<noteq> w"
    and g: "nl_ended g"
  shows "String_match ((if f then g @ js ''\<newline># Playwright\<newline>'' else g) @ v @ js ''\<newline>'') q
           \<longleftrightarrow> String_match g q"
proof -
  define t where "t = (if f then js ''\<newline># Playwright\<newline>'' else []) @ v @ js ''\<newline>''"
  have eq: "(if f then g @ js ''\<newline># Playwright\<newline>'' else g) @ v @ js ''\<newline>'' = g @ t"
    by (simp add: t_def)
  have q: "list_all lt_free q" "\<not> rx_match q None []" using valuesToAdd_good[OF e'] by auto
  have no: "\<not> rx_search q (if g = [] then None else Some 0x0A) t"
    using others_unmatched_at[OF e e'] ne by (auto simp: t_def)
  show ?thesis
    unfolding eq using String_match_split[OF _ g q(1), of t] String_match_append[OF _ g q] no
    by blast
qed

lemma addValues_exact:
  assumes "distinct (map fst es)" "set es \<subseteq> set valuesToAdd" "nl_ended g"
  shows "foldl addValue (g, f) es =
     (let missing = filter (\<lambda>e. \<not> String_match g (snd e)) es
      in if missing = [] then (g, f)
         else ((if f then g @ js ''\<newline># Playwright\<newline>'' else g) @
               concat (map (\<lambda>e. fst e @ js ''\<newline>'') missing), False))"
  using assms
proof (induction es arbitrary: g f)
  case Nil
  then show ?case by simp
next
  case (Cons e es)
  obtain v r where e: "e = (v, r)" by (cases e)
  have mem: "(v, r) \<in> set valuesToAdd" using Cons.prems(2) e by simp
  have d: "distinct (map fst es)" and sub: "set es \<subseteq> set valuesToAdd"
    using Cons.prems by simp_all
  show ?case
  proof (cases "String_match g r")
    case True
    then have "addValue (g, f) e = (g, f)" by (simp add: addValue_def e)
    then show ?thesis using Cons.IH[OF d sub Cons.prems(3), of f] True by (simp add: e)
  next
    case False
    define g1 where "g1 = (if f then g @ js ''\<newline># Playwright\<newline>'' else g) @ v @ js ''\<newline>''"
    have step: "addValue (g, f) e = (g1, False)"
      using False by (simp add: addValue_def e g1_def)
    have g1: "nl_ended g1" by (simp add: g1_def nl_ended_def js_def)
    have same: "filter (\<lambda>e. \<not> String_match g1 (snd e)) es = filter (\<lambda>e. \<not> String_match g (snd e)) es"
    proof (rule filter_cong[OF refl])
      fix x assume x: "x \<in> set es"
      then have "fst x \<noteq> v" using Cons.prems(1) e by auto
      moreover have "(fst x, snd x) \<in> set valuesToAdd" using x sub by auto
      ultimately show "(\<not> String_match g1 (snd x)) = (\<not> String_match g (snd x))"
        using String_match_stable[OF mem _ _ Cons.prems(3), of "fst x" "snd x" f]
        by (auto simp: g1_def)
    qed
    define ms where "ms = filter (\<lambda>e. \<not> String_match g (snd e)) es"
    have ih: "foldl addValue (g1, False) es =
                (g1 @ concat (map (\<lambda>e. fst e @ js ''\<newline>'') ms), False)"
      using Cons.IH[OF d sub g1, of False]
      by (cases "ms = []") (simp_all add: same Let_def ms_def[symmetric])
    have lhs: "foldl addValue (g, f) (e # es) = foldl addValue (g1, False) es"
      by (simp add: step)
    have rhs: "filter (\<lambda>e. \<not> String_match g (snd e)) (e # es) = e # ms"
      using False by (simp add: e ms_def)
    show ?thesis
      unfolding lhs ih rhs by (simp add: g1_def e)
  qed
qed

lemma trimEnd_append_keep:
  assumes "a \<noteq> []" "\<not> isWhiteSpace (last a)"
  shows "trimEnd (a @ b) = a @ trimEnd b"
proof -
  have "dropWhile isWhiteSpace (rev a) = rev a"
    using assms by (cases a rule: rev_cases) auto
  then show ?thesis
    using assms by (auto simp: trimEnd_def dropWhile_append)
qed

lemma node_modules_line_matches:
  assumes c: "content = before @ js ''node_modules'' @ after"
    and b: "before = [] \<or> isLineTerminator (last before)"
  shows "String_match (trimEnd content @ js ''\<newline>'') (snd (hd valuesToAdd))"
proof -
  have "trimEnd ((before @ js ''node_modules'') @ after) = (before @ js ''node_modules'') @ trimEnd after"
    by (rule trimEnd_append_keep) (simp_all add: js_def isWhiteSpace_def isLineTerminator_def)
  then have t: "trimEnd content @ js ''\<newline>'' =
      before @ (js ''node_modules'' @ trimEnd after @ js ''\<newline>'')"
    by (simp add: c)
  have "rx_match (snd (hd valuesToAdd)) (if before = [] then None else Some (last before))
          (js ''node_modules'' @ trimEnd after @ js ''\<newline>'')"
    using b by (auto simp: valuesToAdd_def lit_def js_def)
  then show ?thesis
    unfolding String_match_def rx_search_iff t by blast
qed

text \<open>
  Claim C5, as the code has it. When the existing \<^verbatim>\<open>.gitignore\<close> has a line that begins
  with \<^verbatim>\<open>node_modules\<close>, the patch never appends \<^verbatim>\<open>node_modules/\<close>. What it writes is
  the content with its trailing white space replaced by one line feed, followed, only
  when one of the other four entries has no matching line, by an empty line, the heading
  \<^verbatim>\<open># Playwright\<close> and those missing entries; when none is missing nothing is appended.
\<close>

theorem patchGitIgnore_node_modules:
  assumes "content = before @ js ''node_modules'' @ after"
    and "before = [] \<or> isLineTerminator (last before)"
  shows "patchGitIgnore (Some content) =
     (let gitIgnore = trimEnd content @ js ''\<newline>'';
          missing = filter (\<lambda>e. \<not> String_match gitIgnore (snd e)) (tl valuesToAdd)
      in if missing = [] then gitIgnore
         else gitIgnore @ js ''\<newline># Playwright\<newline>'' @
              concat (map (\<lambda>e. fst e @ js ''\<newline>'') missing))"
proof -
  define g where "g = trimEnd content @ js ''\<newline>''"
  have m: "String_match g (snd (hd valuesToAdd))"
    unfolding g_def by (rule node_modules_line_matches[OF assms])
  have v: "valuesToAdd = hd valuesToAdd # tl valuesToAdd"
    by (simp add: valuesToAdd_def)
  have first: "addValue (g, True) (hd valuesToAdd) = (g, True)"
    using m by (cases "hd valuesToAdd") (simp add: addValue_def)
  have "foldl addValue (g, True) valuesToAdd = foldl addValue (g, True) (tl valuesToAdd)"
    by (subst v) (simp add: first)
  moreover have "distinct (map fst (tl valuesToAdd))"
    by (simp add: valuesToAdd_def js_def)
  moreover have "set (tl valuesToAdd) \<subseteq> set valuesToAdd"
    by (simp add: valuesToAdd_def)
  moreover have "nl_ended g" by (simp add: g_def nl_ended_def js_def)
  ultimately have "foldl addValue (g, True) valuesToAdd =
     (let missing = filter (\<lambda>e. \<not> String_match g (snd e)) (tl valuesToAdd)
      in if missing = [] then (g, True)
         else ((if True then g @ js ''\<newline># Playwright\<newline>'' else g) @
               concat (map (\<lambda>e. fst e @ js ''\<newline>'') missing), False))"
    using addValues_exact[of "tl valuesToAdd" g True] by simp
  then show ?thesis
    by (simp add: patchGitIgnore_def g_def[symmetric] Let_def)
qed

lemma node_modules_only_patched:
  "patchGitIgnore (Some (js ''node_modules\<newline>'')) =
     js ''node_modules\<newline>\<newline># Playwright\<newline>/test-results/\<newline>/playwright-report/\<newline>/blob-report/\<newline>/playwright/.cache/\<newline>''"
  by code_simp

theorem patchGitIgnore_node_modules_witness:
  "js ''node_modules\<newline>'' = [] @ js ''node_modules'' @ js ''\<newline>'' \<and>
   patchGitIgnore (Some (js ''node_modules\<newline>'')) =
     (let gitIgnore = trimEnd (js ''node_modules\<newline>'') @ js ''\<newline>'';
          missing = filter (\<lambda>e. \<not> String_match gitIgnore (snd e)) (tl valuesToAdd)
      in if missing = [] then gitIgnore
         else gitIgnore @ js ''\<newline># Playwright\<newline>'' @
              concat (map (\<lambda>e. fst e @ js ''\<newline>'') missing)) \<and>
   patchGitIgnore (Some (js ''node_modules\<newline>'')) =
     js ''node_modules\<newline>\<newline># Playwright\<newline>/test-results/\<newline>/playwright-report/\<newline>/blob-report/\<newline>/playwright/.cache/\<newline>''"
proof -
  have c: "js ''node_modules\<newline>'' = [] @ js ''node_modules'' @ js ''\<newline>''"
    by (simp add: js_def)
  have b: "([] :: jsstring) = [] \<or> isLineTerminator (last [])" by simp
  from patchGitIgnore_node_modules[OF c b] c node_modules_only_patched
  show ?thesis by blast
qed

theorem node_modules_unchanged_counterexample:
  "String_match (js ''node_modules\<newline>'') (snd (hd valuesToAdd)) \<and>
   patchGitIgnore (Some (js ''node_modules\<newline>'')) \<noteq> js ''node_modules\<newline>''"
proof -
  have "String_match (js ''node_modules\<newline>'') (snd (hd valuesToAdd))" by code_simp
  moreover have "js ''node_modules\<newline>\<newline># Playwright\<newline>/test-results/\<newline>/playwright-report/\<newline>/blob-report/\<newline>/playwright/.cache/\<newline>'' \<noteq> js ''node_modules\<newline>''"
    by (simp add: js_def)
  ultimately show ?thesis by (simp only: node_modules_only_patched) simp
qed

section \<open>The command plan\<close>

lemma browser_names_distinct:
  "js ''chromium'' \<noteq> js ''firefox''" "js ''chromium'' \<noteq> js ''webkit''"
  "js ''firefox'' \<noteq> js ''webkit''" "js ''firefox'' \<noteq> js ''chromium''"
  "js ''webkit'' \<noteq> js ''chromium''" "js ''webkit'' \<noteq> js ''firefox''"
  by (simp_all add: js_def)

lemma buildSections_eq:
  "buildSections opts =
     [(js ''chromium'', if (case opt_browser opts of None \<Rightarrow> True | Some bs \<Rightarrow> js ''chromium'' \<in> set bs) then Show else Comment),
      (js ''firefox'', if (case opt_browser opts of None \<Rightarrow> True | Some bs \<Rightarrow> js ''firefox'' \<in> set bs) then Show else Comment),
      (js ''webkit'', if (case opt_browser opts of None \<Rightarrow> True | Some bs \<Rightarrow> js ''webkit'' \<in> set bs) then Show else Comment)]"
  by (simp add: buildSections_def browser_names_distinct)

lemma buildSections_no_Hide: "Hide \<notin> snd ` set (buildSections opts)"
  unfolding buildSections_eq by simp

text \<open>
  Claim C8. The post-phase commands of the plan are exactly one command that downloads
  the browsers when the answers ask for browsers, and none otherwise. Its text is the
  package manager's \<^verbatim>\<open>npx('playwright', 'install')\<close>, then \<^verbatim>\<open>--with-deps\<close> exactly when
  the answers ask for the system dependencies, then the browsers of the \<^verbatim>\<open>browser\<close>
  option when it was given.
\<close>

theorem browsers_command:
  "filter (\<lambda>c. phase c = post) (snd (identifyChanges env this dsk answers)) =
     (if installPlaywrightBrowsers answers then
        [\<lparr>name = js ''Downloading browsers'',
          command = pm_npx (packageManager this) (js ''playwright'') (js ''install'') @
            (if installPlaywrightDependencies answers then js '' --with-deps'' else []) @
            (case opt_browser (options this) of
               None \<Rightarrow> []
             | Some bs \<Rightarrow> js '' '' @ join (js '' '') bs),
          phase = post\<rparr>]
      else [])"
  by (simp add: identifyChanges_def Let_def browsersSuffix_def)

text \<open>
  Claim C6, as the code has it. Without the \<^verbatim>\<open>ct\<close> option the plan holds, one after the
  other, the pre-phase installs of \<^verbatim>\<open>@playwright/test\<close> with the tag, of \<^verbatim>\<open>dotenv\<close>
  with no tag, and of \<^verbatim>\<open>@dxp/playwright-tools\<close> with the same tag. The tag is empty,
  \<^verbatim>\<open>@beta\<close> or \<^verbatim>\<open>@next\<close>, and \<^verbatim>\<open>@next\<close> when both options are given.
\<close>

theorem non_ct_install_commands:
  assumes "opt_ct (options this) = None"
  shows "\<exists>before after tag.
           tag = (if opt_next (options this) \<noteq> None then js ''@next''
                  else if opt_beta (options this) \<noteq> None then js ''@beta'' else []) \<and>
           snd (identifyChanges env this dsk answers) =
             before @
             [\<lparr>name = js ''Installing Playwright Test'',
               command = pm_installDevDependency (packageManager this) (js ''@playwright/test'' @ tag),
               phase = pre\<rparr>,
              \<lparr>name = js ''Installing dotenv'',
               command = pm_installDevDependency (packageManager this) (js ''dotenv''),
               phase = pre\<rparr>,
              \<lparr>name = js ''Installing dxp/playwright-tools'',
               command = pm_installDevDependency (packageManager this) (js ''@dxp/playwright-tools'' @ tag),
               phase = pre\<rparr>] @
             after"
proof -
  define before where "before =
    (if dsk (js ''package.json'') = None then
       [\<lparr>name = js ''Initializing '' @ pm_name (packageManager this) @ js '' project'',
         command = pm_init (packageManager this), phase = pre\<rparr>]
     else [])"
  define after where "after =
    (if \<not> hasDependency (dsk (js ''package.json'')) (js ''@types/node'') then
       [\<lparr>name = js ''Installing Types'',
         command = pm_installDevDependency (packageManager this) (js ''@types/node''),
         phase = pre\<rparr>]
     else []) @
    (if installPlaywrightBrowsers answers then
       [\<lparr>name = js ''Downloading browsers'',
         command = pm_npx (packageManager this) (js ''playwright'') (js ''install'') @
           (if installPlaywrightDependencies answers then js '' --with-deps'' else []) @
           browsersSuffix (options this),
         phase = post\<rparr>]
     else [])"
  have "snd (identifyChanges env this dsk answers) =
     before @
     [\<lparr>name = js ''Installing Playwright Test'',
       command = pm_installDevDependency (packageManager this) (js ''@playwright/test'' @ packageTag (options this)),
       phase = pre\<rparr>,
      \<lparr>name = js ''Installing dotenv'',
       command = pm_installDevDependency (packageManager this) (js ''dotenv''),
       phase = pre\<rparr>,
      \<lparr>name = js ''Installing dxp/playwright-tools'',
       command = pm_installDevDependency (packageManager this) (js ''@dxp/playwright-tools'' @ packageTag (options this)),
       phase = pre\<rparr>] @
     after"
    using assms by (simp add: identifyChanges_def Let_def before_def after_def)
  then show ?thesis unfolding packageTag_def by blast
qed

lemma beta_plan:
  "map command (snd (identifyChanges exampleEnv betaGenerator Map.empty exampleAnswers)) =
     [js ''npm init -y'',
      js ''npm install --save-dev @playwright/test@beta'',
      js ''npm install --save-dev dotenv'',
      js ''npm install --save-dev @dxp/playwright-tools@beta'',
      js ''npm install --save-dev @types/node'',
      js ''npx playwright install'']"
  by code_simp

theorem non_ct_install_commands_witness:
  "opt_ct (options betaGenerator) = None \<and>
   map command (snd (identifyChanges exampleEnv betaGenerator Map.empty exampleAnswers)) =
     [js ''npm init -y'',
      js ''npm install --save-dev @playwright/test@beta'',
      js ''npm install --save-dev dotenv'',
      js ''npm install --save-dev @dxp/playwright-tools@beta'',
      js ''npm install --save-dev @types/node'',
      js ''npx playwright install'']"
proof -
  have ct: "opt_ct (options betaGenerator) = None"
    by (simp add: betaGenerator_def exampleOptions_def)
  note non_ct_install_commands[OF ct, of exampleEnv Map.empty exampleAnswers]
  with ct beta_plan show ?thesis by blast
qed

theorem dotenv_tag_counterexample:
  "opt_ct (options betaGenerator) = None \<and>
   packageTag (options betaGenerator) = js ''@beta'' \<and>
   pm_installDevDependency (packageManager betaGenerator) (js ''dotenv'' @ packageTag (options betaGenerator))
     \<notin> set (map command (snd (identifyChanges exampleEnv betaGenerator Map.empty exampleAnswers)))"
proof -
  have "pm_installDevDependency (packageManager betaGenerator) (js ''dotenv'' @ packageTag (options betaGenerator))
          = js ''npm install --save-dev dotenv@beta''"
    by code_simp
  moreover have "js ''npm install --save-dev dotenv@beta'' \<notin>
      set [js ''npm init -y'',
      js ''npm install --save-dev @playwright/test@beta'',
      js ''npm install --save-dev dotenv'',
      js ''npm install --save-dev @dxp/playwright-tools@beta'',
      js ''npm install --save-dev @types/node'',
      js ''npx playwright install'']"
    by (simp add: js_def)
  moreover have "packageTag (options betaGenerator) = js ''@beta''"
    by (simp add: packageTag_def betaGenerator_def exampleOptions_def)
  moreover have "opt_ct (options betaGenerator) = None"
    by (simp add: betaGenerator_def exampleOptions_def)
  ultimately show ?thesis by (simp only: beta_plan) simp
qed

section \<open>Browser sections in the rendered configuration\<close>

lemma directiveOf_buildSections:
  assumes "b \<in> set [js ''chromium'', js ''firefox'', js ''webkit'']"
  shows "directiveOf (buildSections opts) b =
    (if (case opt_browser opts of None \<Rightarrow> True | Some bs \<Rightarrow> b \<in> set bs) then Show else Comment)"
  using assms unfolding buildSections_eq directiveOf_def
  by (auto simp: browser_names_distinct)

lemma consLine_Inr: "consLine l (Inr ls) = Inr (l # ls)"
  by (simp add: consLine_def)

lemma resolveLines_append:
  "resolveLines sections st xs = Inr out \<Longrightarrow>
     resolveLines sections st (xs @ ys) =
       (case resolveLines sections None ys of Inl e \<Rightarrow> Inl e | Inr out' \<Rightarrow> Inr (out @ out'))"
proof (induction sections st xs arbitrary: out rule: resolveLines.induct)
  case (1 sections)
  then show ?case by (simp split: sum.splits)
next
  case (2 sections opened)
  then show ?case by simp
next
  case (3 sections l ls)
  show ?case
  proof (cases "markerName (js ''begin'') l")
    case (Some opened)
    with 3 show ?thesis by simp
  next
    case None
    show ?thesis
    proof (cases "markerName (js ''end'') l")
      case (Some closed)
      with 3 None show ?thesis by simp
    next
      case None': None
      from "3.prems" None None' obtain out0 where
        r: "resolveLines sections None ls = Inr out0" and out: "out = l # out0"
        by (auto simp: consLine_def split: sum.splits)
      from "3.IH"(1)[OF None None' r] show ?thesis
        by (simp add: None None' out consLine_def split: sum.splits)
    qed
  qed
next
  case (4 sections opened l ls)
  show ?case
  proof (cases "markerName (js ''end'') l")
    case (Some closed)
    with 4 show ?thesis by (simp split: if_splits)
  next
    case None
    show ?thesis
    proof (cases "markerName (js ''begin'') l")
      case (Some nested)
      with 4 None show ?thesis by simp
    next
      case None': None
      show ?thesis
      proof (cases "directiveOf sections (snd opened)")
        case Show
        from "4.prems" None None' Show obtain out0 where
          r: "resolveLines sections (Some opened) ls = Inr out0" and out: "out = l # out0"
          by (auto simp: consLine_def split: sum.splits)
        from "4.IH"(1)[OF None None' Show r] show ?thesis
          by (simp add: None None' Show out consLine_def split: sum.splits)
      next
        case Hide
        from "4.prems" None None' Hide have
          r: "resolveLines sections (Some opened) ls = Inr out" by simp
        from "4.IH"(2)[OF None None' Hide r] show ?thesis
          by (simp add: None None' Hide)
      next
        case Comment
        from "4.prems" None None' Comment obtain out0 where
          r: "resolveLines sections (Some opened) ls = Inr out0" and out: "out = (fst opened @ l) # out0"
          by (auto simp: consLine_def split: sum.splits)
        from "4.IH"(3)[OF None None' Comment r] show ?thesis
          by (simp add: None None' Comment out consLine_def split: sum.splits)
      qed
    qed
  qed
qed

lemma resolveLines_inner:
  assumes "\<forall>l \<in> set inner. markerName (js ''begin'') l = None \<and> markerName (js ''end'') l = None"
    and "markerName (js ''end'') l2 = Some (tok', b)"
  shows "resolveLines sections (Some (tok, b)) (inner @ [l2]) =
     Inr (case directiveOf sections b of
            Show \<Rightarrow> inner | Hide \<Rightarrow> [] | Comment \<Rightarrow> map ((@) tok) inner)"
  using assms(1)
proof (induction inner)
  case Nil
  then show ?case using assms(2) by (simp split: directive.splits)
next
  case (Cons l inner)
  then show ?case by (cases "directiveOf sections b") (simp_all add: consLine_def)
qed

lemma resolveLines_block:
  assumes l1: "markerName (js ''begin'') l1 = Some (tok, b)"
    and l2: "markerName (js ''end'') l2 = Some (tok', b)"
    and inner: "\<forall>l \<in> set inner. markerName (js ''begin'') l = None \<and> markerName (js ''end'') l = None"
    and pre: "resolveLines sections None before = Inr out1"
    and post: "resolveLines sections None after = Inr out2"
  shows "resolveLines sections None (before @ [l1] @ inner @ [l2] @ after) =
     Inr (out1 @ (case directiveOf sections b of
                    Show \<Rightarrow> inner | Hide \<Rightarrow> [] | Comment \<Rightarrow> map ((@) tok) inner) @ out2)"
proof -
  define block where "block = (case directiveOf sections b of
                    Show \<Rightarrow> inner | Hide \<Rightarrow> [] | Comment \<Rightarrow> map ((@) tok) inner)"
  have "resolveLines sections (Some (tok, b)) ((inner @ [l2]) @ after) = Inr (block @ out2)"
    using resolveLines_append[OF resolveLines_inner[OF inner l2, of sections tok], of after] post
    by (simp add: block_def)
  then have "resolveLines sections None (l1 # inner @ [l2] @ after) = Inr (block @ out2)"
    using l1 by simp
  then show ?thesis
    using resolveLines_append[OF pre, of "l1 # inner @ [l2] @ after"]
    by (simp add: block_def)
qed

lemma map_of_Map_set:
  "map_of (Map_set m k v) k' = (if k' = k then Some v else map_of m k')"
  by (induction m) auto

lemma config_name_distinct:
  "js ''.github/workflows/playwright.yml'' \<noteq> js ''playwright.config.'' @ e"
  "js ''.github/workflows/playwright.yml'' \<noteq> js ''playwright-ct.config.'' @ e"
  "js ''playwright/index.html'' \<noteq> js ''playwright.config.'' @ e"
  "js ''playwright/index.html'' \<noteq> js ''playwright-ct.config.'' @ e"
  "js ''playwright/index.'' @ x \<noteq> js ''playwright.config.'' @ e"
  "js ''playwright/index.'' @ x \<noteq> js ''playwright-ct.config.'' @ e"
  by (simp_all add: js_def)

lemma map_of_if_set:
  "k \<noteq> k' \<Longrightarrow> map_of (if c then Map_set m k v else m) k' = map_of m k'"
  by (simp add: map_of_Map_set)

lemma map_of_if_set2:
  "k1 \<noteq> k' \<Longrightarrow> k2 \<noteq> k' \<Longrightarrow>
     map_of (if c then Map_set (Map_set m k1 v1) k2 v2 else m) k' = map_of m k'"
  by (simp add: map_of_Map_set)

lemma planned_config_file:
  assumes name: "configName =
      (case framework answers of None \<Rightarrow> js ''playwright.config.'' | Some f \<Rightarrow> js ''playwright-ct.config.'') @
      languageToFileExtension env (language answers)"
    and vars: "vars =
      (case framework answers of
         None \<Rightarrow> [(js ''testDir'', testDir answers)]
       | Some f \<Rightarrow> [(js ''testDir'', testDir answers),
                    (js ''ctPackageName'', js ''@playwright/experimental-ct-'' @ frameworkName f)])"
    and paths:
      "path_join env (testDir answers) (js ''example.spec.'' @ languageToFileExtension env (language answers)) \<noteq> configName"
      "path_join env (js ''tests-examples'') (js ''demo-todo-app.spec.'' @ languageToFileExtension env (language answers)) \<noteq> configName"
  shows "map_of (fst (identifyChanges env this dsk answers)) configName =
           Some (executeTemplate env (assets env configName) vars (buildSections (options this)))"
proof -
  let ?e = "languageToFileExtension env (language answers)"
  have d: "js ''.github/workflows/playwright.yml'' \<noteq> configName"
    "js ''playwright/index.html'' \<noteq> configName"
    "js ''playwright/index.'' @ getFileExtensionCT env (language answers) (framework answers) \<noteq> configName"
    by (cases "framework answers"; simp add: name config_name_distinct)+
  have "map_of (fst (identifyChanges env this dsk answers)) configName =
        map_of (case (case framework answers of
                        None \<Rightarrow> None
                      | Some f \<Rightarrow> Some (js ''@playwright/experimental-ct-'' @ frameworkName f)) of
                  None \<Rightarrow>
                    Map_set [] (js ''playwright.config.'' @ ?e)
                      (executeTemplate env (assets env (js ''playwright.config.'' @ ?e))
                         [(js ''testDir'', testDir answers)] (buildSections (options this)))
                | Some ct \<Rightarrow>
                    Map_set [] (js ''playwright-ct.config.'' @ ?e)
                      (executeTemplate env (assets env (js ''playwright-ct.config.'' @ ?e))
                         [(js ''testDir'', testDir answers), (js ''ctPackageName'', ct)]
                         (buildSections (options this)))) configName"
    unfolding identifyChanges_def Let_def fst_conv
    by (simp only: map_of_if_set2[OF d(2) d(3)] map_of_if_set2[OF paths] map_of_if_set[OF d(1)])
  also have "\<dots> = Some (executeTemplate env (assets env configName) vars (buildSections (options this)))"
    by (cases "framework answers") (simp_all add: name vars)
  finally show ?thesis .
qed

text \<open>
  Claim C9. The directive map has exactly the three browser sections and never holds
  \<open>Hide\<close>: a browser is shown when no browser subset was given or the browser is in it,
  and commented otherwise. With the template engine of the spec, the configuration file
  that \<^verbatim>\<open>_identifyChanges\<close> plans is the asset rendered with this map: the inner lines of
  the block of a browser \<open>b\<close> are all there, as they are when \<open>b\<close> is selected and each
  behind the comment token of the block when it is not; the block is never removed.
  \<open>before\<close> and \<open>after\<close> are the lines around the block, \<open>out1\<close> and \<open>out2\<close> what
  they render to.
\<close>

theorem deselected_browsers_commented:
  assumes engine: "\<And>t v s r. renderTemplate t v s = Inr r \<Longrightarrow> executeTemplate env t v s = r"
    and name: "configName =
      (case framework answers of None \<Rightarrow> js ''playwright.config.'' | Some f \<Rightarrow> js ''playwright-ct.config.'') @
      languageToFileExtension env (language answers)"
    and vars: "vars =
      (case framework answers of
         None \<Rightarrow> [(js ''testDir'', testDir answers)]
       | Some f \<Rightarrow> [(js ''testDir'', testDir answers),
                    (js ''ctPackageName'', js ''@playwright/experimental-ct-'' @ frameworkName f)])"
    and paths:
      "path_join env (testDir answers) (js ''example.spec.'' @ languageToFileExtension env (language answers)) \<noteq> configName"
      "path_join env (js ''tests-examples'') (js ''demo-todo-app.spec.'' @ languageToFileExtension env (language answers)) \<noteq> configName"
    and browser: "b \<in> set [js ''chromium'', js ''firefox'', js ''webkit'']"
    and lines: "splitLines (substitute vars (assets env configName)) = before @ [l1] @ inner @ [l2] @ after"
    and l1: "markerName (js ''begin'') l1 = Some (tok, b)"
    and l2: "markerName (js ''end'') l2 = Some (tok', b)"
    and inner: "\<forall>l \<in> set inner. markerName (js ''begin'') l = None \<and> markerName (js ''end'') l = None"
    and pre: "resolveLines (buildSections (options this)) None before = Inr out1"
    and post: "resolveLines (buildSections (options this)) None after = Inr out2"
  shows "map fst (buildSections (options this)) = [js ''chromium'', js ''firefox'', js ''webkit''] \<and>
         Hide \<notin> snd ` set (buildSections (options this)) \<and>
         directiveOf (buildSections (options this)) b =
           (if (case opt_browser (options this) of None \<Rightarrow> True | Some bs \<Rightarrow> b \<in> set bs)
            then Show else Comment) \<and>
         map_of (fst (identifyChanges env this dsk answers)) configName =
           Some (joinLines
                  (out1 @
                   (if (case opt_browser (options this) of None \<Rightarrow> True | Some bs \<Rightarrow> b \<in> set bs)
                    then inner else map ((@) tok) inner) @
                   out2))"
proof -
  let ?sections = "buildSections (options this)"
  let ?selected = "case opt_browser (options this) of None \<Rightarrow> True | Some bs \<Rightarrow> b \<in> set bs"
  have keys: "map fst ?sections = [js ''chromium'', js ''firefox'', js ''webkit'']"
    unfolding buildSections_eq by simp
  have dir: "directiveOf ?sections b = (if ?selected then Show else Comment)"
    by (rule directiveOf_buildSections[OF browser])
  have "resolveLines ?sections None (before @ [l1] @ inner @ [l2] @ after) =
          Inr (out1 @ (case directiveOf ?sections b of
                         Show \<Rightarrow> inner | Hide \<Rightarrow> [] | Comment \<Rightarrow> map ((@) tok) inner) @ out2)"
    by (rule resolveLines_block[OF l1 l2 inner pre post])
  then have "renderTemplate (assets env configName) vars ?sections =
          Inr (joinLines (out1 @ (if ?selected then inner else map ((@) tok) inner) @ out2))"
    by (simp add: renderTemplate_def lines dir)
  from engine[OF this] planned_config_file[OF name vars paths, of this dsk]
  have "map_of (fst (identifyChanges env this dsk answers)) configName =
          Some (joinLines (out1 @ (if ?selected then inner else map ((@) tok) inner) @ out2))"
    by simp
  with keys dir buildSections_no_Hide[of "options this"] show ?thesis by blast
qed

lemma commented_example_lines:
  "splitLines (substitute [(js ''testDir'', testDir exampleAnswers)]
      (assets templateEnv (js ''playwright.config.ts''))) =
     [js ''testDir: ./tests,'', js ''projects: ['', js ''    //--begin-chromium'',
      js ''    { name: chromium },'', js ''    //--end-chromium''] @
     [js ''    //--begin-firefox''] @ [js ''    { name: firefox },''] @
     [js ''    //--end-firefox''] @ [js ''],'', []]"
  by code_simp

lemma commented_example_markers:
  "markerName (js ''begin'') (js ''    //--begin-firefox'') = Some (js ''//'', js ''firefox'')"
  "markerName (js ''end'') (js ''    //--end-firefox'') = Some (js ''//'', js ''firefox'')"
  "\<forall>l \<in> set [js ''    { name: firefox },''].
     markerName (js ''begin'') l = None \<and> markerName (js ''end'') l = None"
  by code_simp+

lemma commented_example_around:
  "resolveLines (buildSections (options chromiumGenerator)) None
     [js ''testDir: ./tests,'', js ''projects: ['', js ''    //--begin-chromium'',
      js ''    { name: chromium },'', js ''    //--end-chromium''] =
   Inr [js ''testDir: ./tests,'', js ''projects: ['', js ''    { name: chromium },'']"
  "resolveLines (buildSections (options chromiumGenerator)) None [js ''],'', []] = Inr [js ''],'', []]"
  by code_simp+

theorem deselected_browsers_commented_witness:
  "opt_browser (options chromiumGenerator) = Some [js ''chromium''] \<and>
   directiveOf (buildSections (options chromiumGenerator)) (js ''firefox'') = Comment \<and>
   map_of (fst (identifyChanges templateEnv chromiumGenerator Map.empty exampleAnswers))
     (js ''playwright.config.ts'') =
     Some (js ''testDir: ./tests,\<newline>projects: [\<newline>    { name: chromium },\<newline>//    { name: firefox },\<newline>],\<newline>'')"
proof -
  have engine: "\<And>t v s r. renderTemplate t v s = Inr r \<Longrightarrow> executeTemplate templateEnv t v s = r"
    by (simp add: templateEnv_def)
  have name: "js ''playwright.config.ts'' =
      (case framework exampleAnswers of None \<Rightarrow> js ''playwright.config.'' | Some f \<Rightarrow> js ''playwright-ct.config.'') @
      languageToFileExtension templateEnv (language exampleAnswers)"
    by code_simp
  have vars: "[(js ''testDir'', testDir exampleAnswers)] =
      (case framework exampleAnswers of
         None \<Rightarrow> [(js ''testDir'', testDir exampleAnswers)]
       | Some f \<Rightarrow> [(js ''testDir'', testDir exampleAnswers),
                    (js ''ctPackageName'', js ''@playwright/experimental-ct-'' @ frameworkName f)])"
    by (simp add: exampleAnswers_def)
  have paths:
    "path_join templateEnv (testDir exampleAnswers)
       (js ''example.spec.'' @ languageToFileExtension templateEnv (language exampleAnswers)) \<noteq>
     js ''playwright.config.ts''"
    "path_join templateEnv (js ''tests-examples'')
       (js ''demo-todo-app.spec.'' @ languageToFileExtension templateEnv (language exampleAnswers)) \<noteq>
     js ''playwright.config.ts''"
    by code_simp+
  have browser: "js ''firefox'' \<in> set [js ''chromium'', js ''firefox'', js ''webkit'']"
    by simp
  have opt: "opt_browser (options chromiumGenerator) = Some [js ''chromium'']"
    by (simp add: chromiumGenerator_def)
  have unselected: "\<not> (case opt_browser (options chromiumGenerator) of
                          None \<Rightarrow> True | Some bs \<Rightarrow> js ''firefox'' \<in> set bs)"
    by (simp add: opt browser_names_distinct)
  have joined: "joinLines
      ([js ''testDir: ./tests,'', js ''projects: ['', js ''    { name: chromium },''] @
       map ((@) (js ''//'')) [js ''    { name: firefox },''] @ [js ''],'', []]) =
      js ''testDir: ./tests,\<newline>projects: [\<newline>    { name: chromium },\<newline>//    { name: firefox },\<newline>],\<newline>''"
    by code_simp
  from deselected_browsers_commented
         [OF engine name vars paths browser commented_example_lines commented_example_markers
             commented_example_around, of Map.empty]
       unselected opt joined
  show ?thesis by simp
qed

section \<open>The order of a run\<close>

lemma partition_foldl:
  "foldl (\<lambda>acc command.
            if phase command = pre then (fst acc @ [command], snd acc)
            else (fst acc, snd acc @ [command])) (a, b) cs =
     (a @ filter (\<lambda>c. phase c = pre) cs, b @ filter (\<lambda>c. phase c = post) cs)"
proof (induction cs arbitrary: a b)
  case Nil
  then show ?case by simp
next
  case (Cons c cs)
  then show ?case by (cases "phase c") simp_all
qed

lemma partitionCommands_eq:
  "partitionCommands cs = (filter (\<lambda>c. phase c = pre) cs, filter (\<lambda>c. phase c = post) cs)"
  unfolding partitionCommands_def by (simp add: partition_foldl)

lemma executeCommands_trace:
  "executeCommands env cs w = (r, w') \<Longrightarrow>
     prefix (trace w') (trace w @ map Exec cs) \<and> (r = None \<longrightarrow> trace w' = trace w @ map Exec cs)"
proof (induction cs arbitrary: w)
  case Nil
  then show ?case by simp
next
  case (Cons c cs)
  show ?case
  proof (cases "execSync env (command c) (disk w)")
    case None
    with Cons.prems show ?thesis by auto
  next
    case (Some d)
    with Cons.prems have "executeCommands env cs (w\<lparr>disk := d, trace := trace w @ [Exec c]\<rparr>) = (r, w')"
      by simp
    from Cons.IH[OF this] show ?thesis by simp
  qed
qed

lemma createFiles_trace:
  "\<exists>ws. set ws \<subseteq> fst ` set fs \<and> trace (createFiles env fs force w) = trace w @ map Write ws"
proof (induction fs arbitrary: w)
  case Nil
  then show ?case by simp
next
  case (Cons f fs)
  show ?case
  proof (cases "disk w (fst f) \<noteq> None \<and> \<not> force \<and> \<not> override env (fst f)")
    case True
    from Cons.IH[of w] obtain ws where "set ws \<subseteq> fst ` set fs"
      "trace (createFiles env fs force w) = trace w @ map Write ws" by blast
    with True have "set ws \<subseteq> fst ` set (f # fs) \<and>
      trace (createFiles env (f # fs) force w) = trace w @ map Write ws" by auto
    then show ?thesis by blast
  next
    case False
    define w1 where "w1 = w\<lparr>disk := (disk w)(fst f \<mapsto> snd f), trace := trace w @ [Write (fst f)]\<rparr>"
    from Cons.IH[of w1] obtain ws where ws: "set ws \<subseteq> fst ` set fs"
      "trace (createFiles env fs force w1) = trace w1 @ map Write ws" by blast
    have "createFiles env (f # fs) force w = createFiles env fs force w1"
      using False by (cases "disk w (fst f)") (auto simp: w1_def)
    with ws have "set (fst f # ws) \<subseteq> fst ` set (f # fs) \<and>
      trace (createFiles env (f # fs) force w) = trace w @ map Write (fst f # ws)"
      by (auto simp: w1_def)
    then show ?thesis by blast
  qed
qed

lemma createFiles_forced_single:
  "trace (createFiles env [(p, c)] True w) = trace w @ [Write p]"
  by simp

text \<open>
  Claim C1. Whatever the planned command list, a run executes the pre-phase commands in
  the order of the plan before it writes any file, and the post-phase commands in the
  order of the plan after the files, \<^verbatim>\<open>.gitignore\<close> and \<^verbatim>\<open>package.json\<close> are written. A
  run stops at the first step that throws, so its trace is always a beginning of this
  schedule, and the whole of it when no step throws. \<open>ws\<close> are the files that
  \<^verbatim>\<open>createFiles\<close> wrote.
\<close>

theorem run_phase_order:
  assumes run: "applyChanges env answers files allCommands w = (r, w')"
  shows "\<exists>ws. set ws \<subseteq> fst ` set files \<and>
           prefix (trace w')
             (trace w @ map Exec (filter (\<lambda>c. phase c = pre) allCommands) @ map Write ws @
              [Write (js ''.gitignore''), Write (js ''package.json'')] @
              map Exec (filter (\<lambda>c. phase c = post) allCommands)) \<and>
           (r = None \<longrightarrow>
              trace w' =
                trace w @ map Exec (filter (\<lambda>c. phase c = pre) allCommands) @ map Write ws @
                [Write (js ''.gitignore''), Write (js ''package.json'')] @
                map Exec (filter (\<lambda>c. phase c = post) allCommands))"
proof -
  define schedule where "schedule = (\<lambda>cs ws. map Exec (filter (\<lambda>c. phase c = pre) cs) @ map Write ws @
              [Write (js ''.gitignore''), Write (js ''package.json'')] @
              map Exec (filter (\<lambda>c. phase c = post) cs))"
  define pres where "pres = filter (\<lambda>c. phase c = pre) allCommands"
  define posts where "posts = filter (\<lambda>c. phase c = post) allCommands"
  obtain r1 w1 where e1: "executeCommands env pres w = (r1, w1)"
    by (cases "executeCommands env pres w")
  from executeCommands_trace[OF e1]
  have t1: "prefix (trace w1) (trace w @ map Exec pres)"
    "r1 = None \<longrightarrow> trace w1 = trace w @ map Exec pres" by auto
  obtain ws where ws: "set ws \<subseteq> fst ` set files"
    "trace (createFiles env files False w1) = trace w1 @ map Write ws"
    using createFiles_trace by blast
  define w3 where "w3 = Generator_patchGitIgnore (createFiles env files False w1)"
  have t3: "trace w3 = trace w1 @ map Write ws @ [Write (js ''.gitignore'')]"
    by (simp add: w3_def Generator_patchGitIgnore_def ws(2))
  show ?thesis
  proof (cases r1)
    case (Some e)
    with run e1 have "w' = w1" "r = Some e"
      by (auto simp: applyChanges_def partitionCommands_eq pres_def)
    moreover have "prefix (trace w1) (trace w @ schedule allCommands ws)"
      using prefix_prefix[OF t1(1)] by (simp add: schedule_def pres_def)
    ultimately show ?thesis using ws(1) unfolding schedule_def by auto
  next
    case None
    then have t1': "trace w1 = trace w @ map Exec pres" using t1(2) by simp
    obtain r4 w4 where e4: "Generator_patchPackageJSON env answers w3 = (r4, w4)"
      by (cases "Generator_patchPackageJSON env answers w3")
    show ?thesis
    proof (cases r4)
      case (Some e)
      with e4 have "w4 = w3"
        by (auto simp: Generator_patchPackageJSON_def split: sum.splits)
      with run e1 None e4 Some have "w' = w3" "r = Some e"
        by (auto simp: applyChanges_def partitionCommands_eq pres_def w3_def)
      moreover have "prefix (trace w3) (trace w @ schedule allCommands ws)"
        by (simp add: t3 t1' schedule_def pres_def)
      ultimately show ?thesis using ws(1) unfolding schedule_def by auto
    next
      case None': None
      with e4 have t4: "trace w4 = trace w3 @ [Write (js ''package.json'')]"
        by (auto simp: Generator_patchPackageJSON_def split: sum.splits)
      from run e1 None e4 None' have e5: "executeCommands env posts w4 = (r, w')"
        by (auto simp: applyChanges_def partitionCommands_eq pres_def posts_def w3_def)
      from executeCommands_trace[OF e5] show ?thesis
        using ws(1) by (auto simp: t4 t3 t1' schedule_def pres_def posts_def)
    qed
  qed
qed

theorem run_phase_order_witness:
  "fst (applyChanges exampleEnv exampleAnswers [(js ''playwright.config.ts'', js ''x'')]
          [commandA, commandB, commandC] exampleWorld) = None \<and>
   trace (snd (applyChanges exampleEnv exampleAnswers [(js ''playwright.config.ts'', js ''x'')]
          [commandA, commandB, commandC] exampleWorld)) =
     [Exec commandA, Exec commandC, Write (js ''playwright.config.ts''),
      Write (js ''.gitignore''), Write (js ''package.json''), Exec commandB]"
proof -
  let ?run = "applyChanges exampleEnv exampleAnswers [(js ''playwright.config.ts'', js ''x'')]
          [commandA, commandB, commandC] exampleWorld"
  have ok: "fst ?run = None" by code_simp
  then have "?run = (None, snd ?run)" by (metis prod.collapse)
  from run_phase_order[OF this]
  have sched: "\<exists>ws. set ws \<subseteq> fst ` set [(js ''playwright.config.ts'', js ''x'')] \<and>
      prefix (trace (snd ?run))
        (trace exampleWorld @
         map Exec (filter (\<lambda>c. phase c = pre) [commandA, commandB, commandC]) @ map Write ws @
         [Write (js ''.gitignore''), Write (js ''package.json'')] @
         map Exec (filter (\<lambda>c. phase c = post) [commandA, commandB, commandC])) \<and>
      (None = (None :: error option) \<longrightarrow>
         trace (snd ?run) =
           trace exampleWorld @
           map Exec (filter (\<lambda>c. phase c = pre) [commandA, commandB, commandC]) @ map Write ws @
           [Write (js ''.gitignore''), Write (js ''package.json'')] @
           map Exec (filter (\<lambda>c. phase c = post) [commandA, commandB, commandC]))" .
  have written: "trace (snd ?run) =
     [Exec commandA, Exec commandC, Write (js ''playwright.config.ts''),
      Write (js ''.gitignore''), Write (js ''package.json''), Exec commandB]"
    by code_simp
  from sched ok written show ?thesis by blast
qed

section \<open>Members of an object\<close>


lemma absent_dropWhile:
  "k \<notin> fst ` set ms \<Longrightarrow> k \<notin> fst ` set (dropWhile P ms)"
  by (auto dest: set_dropWhileD)





lemma objGet_mem: "objGet obj k = Some v \<Longrightarrow> k \<in> fst ` set obj"
  unfolding objGet_def by (metis domI dom_map_of_conv_image_fst)

section \<open>An unreadable manifest\<close>





section \<open>The placeholder test script\<close>

lemma placeholder_includes: "String_includes placeholderScript (js ''no test specified'')"
  by code_simp

lemma test_ct_no_index: "arrayIndex (js ''test-ct'') = None"
  by code_simp

lemma scripts_no_index: "arrayIndex (js ''scripts'') = None"
  by code_simp

lemma test_ne_test_ct: "js ''test'' \<noteq> js ''test-ct''"
  by code_simp

lemma placeholder_scripts:
  assumes "framework answers = Some f"
  shows "patchScripts answers ext (JObj [(js ''test'', JStr placeholderScript)]) =
         Inr (JObj [(js ''test-ct'', JStr (js ''playwright test -c playwright-ct.config.'' @ ext))])"
  using assms placeholder_includes
  by (simp add: patchScripts_def testIncludes_def objGet_def objDelete_def objSet_def
      test_ct_no_index)

text \<open>
  Claim C4. For a manifest whose \<^verbatim>\<open>scripts\<close> is exactly the \<^verbatim>\<open>test\<close> placeholder of
  \<^verbatim>\<open>npm init\<close>, patching with a component-testing framework selected writes the manifest
  with \<^verbatim>\<open>scripts\<close> replaced by the object whose only member is \<^verbatim>\<open>test-ct\<close>, equal to
  \<^verbatim>\<open>playwright test -c playwright-ct.config.\<close> followed by the extension of the chosen
  language; the other members of the manifest stay as they are.
\<close>

theorem placeholder_test_replaced:
  assumes parse: "JSON_parse text = Some (JObj obj)"
    and scripts: "objGet obj (js ''scripts'') = Some (JObj [(js ''test'', JStr placeholderScript)])"
    and ct: "framework answers = Some f"
  shows "patchPackageJSON env answers (Some text) =
           Inr (JSON_stringify (numberToString env)
                  (JObj (map (\<lambda>m. if fst m = js ''scripts''
                                  then (js ''scripts'',
                                        JObj [(js ''test-ct'',
                                               JStr (js ''playwright test -c playwright-ct.config.'' @
                                                     languageToFileExtension env (language answers)))])
                                  else m) obj)) @ js ''\<newline>'')"
proof -
  have mem: "js ''scripts'' \<in> fst ` set obj" using scripts by (rule objGet_mem)
  have "patchDocument answers (languageToFileExtension env (language answers)) (JObj obj) =
        Inr (JObj (objSet obj (js ''scripts'')
               (JObj [(js ''test-ct'', JStr (js ''playwright test -c playwright-ct.config.'' @
                        languageToFileExtension env (language answers)))])))"
    using scripts placeholder_scripts[OF ct]
    by (simp add: patchDocument_def)
  then show ?thesis using parse mem
    by (simp add: patchPackageJSON_def objSet_def)
qed

lemma placeholder_parsed:
  "JSON_parse placeholderManifest =
     Some (JObj [(js ''scripts'', JObj [(js ''test'', JStr placeholderScript)])])"
  by code_simp

theorem placeholder_test_replaced_witness:
  \<open>patchPackageJSON exampleEnv reactAnswers (Some placeholderManifest) =
     Inr (js ''{\<newline>  "scripts": {\<newline>    "test-ct": "playwright test -c playwright-ct.config.ts"\<newline>  }\<newline>}\<newline>'')\<close>
proof -
  have ct: "framework reactAnswers = Some react" by (simp add: reactAnswers_def)
  have sc: "objGet [(js ''scripts'', JObj [(js ''test'', JStr placeholderScript)])] (js ''scripts'') =
            Some (JObj [(js ''test'', JStr placeholderScript)])"
    by (simp add: objGet_def)
  have printed: \<open>JSON_stringify (numberToString exampleEnv)
          (JObj (map (\<lambda>m. if fst m = js ''scripts''
                          then (js ''scripts'',
                                JObj [(js ''test-ct'',
                                       JStr (js ''playwright test -c playwright-ct.config.'' @
                                             languageToFileExtension exampleEnv (language reactAnswers)))])
                          else m) [(js ''scripts'', JObj [(js ''test'', JStr placeholderScript)])])) @ js ''\<newline>'' =
      js ''{\<newline>  "scripts": {\<newline>    "test-ct": "playwright test -c playwright-ct.config.ts"\<newline>  }\<newline>}\<newline>''\<close>
    by code_simp
  from placeholder_test_replaced[OF placeholder_parsed sc ct, of exampleEnv] printed
  show ?thesis by simp
qed

section \<open>The manifest written back\<close>








end
